theory Spec2Isabelle
  imports Main
begin

section \<open>Promises and their outcomes\<close>

text \<open>
  An awaited promise either fulfils with a value or rejects. The rejection carries the
  text that the source renders with \<^verbatim>\<open>err?.message || err\<close>.
\<close>

datatype 'a settled = Fulfilled 'a | Rejected string

section \<open>AuthContext.tsx: the session store\<close>

subsection \<open>Data\<close>

text \<open>
  Modelled from the spec: the declarations of \<^verbatim>\<open>User\<close> (supabase-js) and
  \<^verbatim>\<open>UserProfile\<close> (lib/auth) are not part of the sources at hand. The provider
  reads only \<^verbatim>\<open>user.id\<close> and \<^verbatim>\<open>session?.user\<close>.
\<close>

record User =
  user_id :: string
  email :: string

record UserProfile =
  profile_id :: string
  username :: string
  full_name :: string
  avatar_url :: "string option"

record Session =
  session_user :: User

datatype AuthChangeEvent =
  INITIAL_SESSION | SIGNED_IN | SIGNED_OUT | TOKEN_REFRESHED | USER_UPDATED
  | PASSWORD_RECOVERY | MFA_CHALLENGE_VERIFIED

text \<open>Who called \<^verbatim>\<open>fetchProfile\<close>: the initialization sequence or the listener.\<close>

datatype origin = FromInit | FromListener

text \<open>The network operations the provider issues, logged in the order of issue.\<close>

datatype net_call =
  GetSession
  | CreateOrUpdateProfile origin User
  | GetProfile string
  | SupabaseSignOut

text \<open>The callbacks handed to \<^verbatim>\<open>setTimeout\<close>.\<close>

datatype timer_task = InitTimeout | DeferredFetchProfile User

text \<open>Where the asynchronous \<^verbatim>\<open>initAuth\<close> is suspended.\<close>

datatype init_pc = NotStarted | AwaitGetSession | AwaitFetchProfile | InitFinished

text \<open>
  The four \<^verbatim>\<open>useState\<close> cells, the \<^verbatim>\<open>initialized\<close> ref, the effect's local
  \<^verbatim>\<open>timeoutId\<close>, and the environment the provider acts on: the timer queue
  (handle, due time in milliseconds, callback), the clock, the registered listener,
  the suspended asynchronous calls and the log of network calls.
\<close>

record auth_state =
  user :: "User option"
  profile :: "UserProfile option"
  loading :: bool
  error :: "string option"
  initialized :: bool
  timeoutId :: "nat option"
  cleanupRegistered :: bool
  listening :: bool
  initPc :: init_pc
  pendingFetches :: "User list"
  pendingRefreshes :: nat
  pendingSignOuts :: nat
  timers :: "(nat \<times> nat \<times> timer_task) list"
  nextHandle :: nat
  clock :: nat
  calls :: "net_call list"

definition initial_auth :: auth_state where
  "initial_auth = \<lparr> user = None, profile = None, loading = True, error = None,
     initialized = False, timeoutId = None, cleanupRegistered = False,
     listening = False, initPc = NotStarted, pendingFetches = [],
     pendingRefreshes = 0, pendingSignOuts = 0, timers = [], nextHandle = 1,
     clock = 0, calls = [] \<rparr>"

subsection \<open>Timers\<close>

definition setTimeout :: "timer_task \<Rightarrow> nat \<Rightarrow> auth_state \<Rightarrow> nat \<times> auth_state" where
  "setTimeout task delay s =
     (nextHandle s,
      s\<lparr> timers := timers s @ [(nextHandle s, clock s + delay, task)],
         nextHandle := Suc (nextHandle s) \<rparr>)"

definition clearTimeout :: "nat option \<Rightarrow> auth_state \<Rightarrow> auth_state" where
  "clearTimeout h s =
     (case h of
        None \<Rightarrow> s
      | Some i \<Rightarrow> s\<lparr> timers := filter (\<lambda>t. fst t \<noteq> i) (timers s) \<rparr>)"

definition timeoutMessage :: string where
  "timeoutMessage = ''Authentication timed out. Please refresh the page.''"

subsection \<open>fetchProfile, refreshProfile, signOut\<close>

text \<open>
  \<^verbatim>\<open>fetchProfile\<close> up to its \<^verbatim>\<open>await\<close>: the call to
  \<^verbatim>\<open>createOrUpdateProfile\<close> is issued.
\<close>

definition fetchProfile_call :: "origin \<Rightarrow> User \<Rightarrow> auth_state \<Rightarrow> auth_state" where
  "fetchProfile_call who currentUser s =
     s\<lparr> calls := calls s @ [CreateOrUpdateProfile who currentUser] \<rparr>"

text \<open>
  \<^verbatim>\<open>fetchProfile\<close> after the \<^verbatim>\<open>await\<close>. A null profile throws inside the
  \<^verbatim>\<open>try\<close>, so it ends in the same \<^verbatim>\<open>catch\<close> as a rejection.
\<close>

definition fetchProfile_resume :: "UserProfile option settled \<Rightarrow> auth_state \<Rightarrow> auth_state" where
  "fetchProfile_resume r s =
     (case r of
        Fulfilled (Some userProfile) \<Rightarrow> s\<lparr> profile := Some userProfile, error := None \<rparr>
      | Fulfilled None \<Rightarrow>
          s\<lparr> profile := None,
             error := Some (''Failed to load profile: '' @ ''Failed to create/update profile'') \<rparr>
      | Rejected m \<Rightarrow>
          s\<lparr> profile := None, error := Some (''Failed to load profile: '' @ m) \<rparr>)"

definition refreshProfile_call :: "auth_state \<Rightarrow> auth_state" where
  "refreshProfile_call s =
     (case user s of
        None \<Rightarrow> s
      | Some u \<Rightarrow> s\<lparr> calls := calls s @ [GetProfile (user_id u)],
                     pendingRefreshes := Suc (pendingRefreshes s) \<rparr>)"

definition refreshProfile_resume :: "UserProfile option settled \<Rightarrow> auth_state \<Rightarrow> auth_state" where
  "refreshProfile_resume r s =
     (case r of
        Fulfilled freshProfile \<Rightarrow> s\<lparr> profile := freshProfile, error := None \<rparr>
      | Rejected m \<Rightarrow> s\<lparr> error := Some (''Failed to refresh profile: '' @ m) \<rparr>)"

definition signOut_call :: "auth_state \<Rightarrow> auth_state" where
  "signOut_call s =
     s\<lparr> calls := calls s @ [SupabaseSignOut], pendingSignOuts := Suc (pendingSignOuts s) \<rparr>"

text \<open>
  \<^verbatim>\<open>signOut\<close> after \<^verbatim>\<open>await supabaseSignOut()\<close>. The two setters follow the
  \<^verbatim>\<open>await\<close> with no \<^verbatim>\<open>try\<close> around it: a rejection leaves \<^verbatim>\<open>signOut\<close>
  before either of them runs. The value of a fulfilled call is not looked at.
\<close>

definition signOut_resume :: "unit settled \<Rightarrow> auth_state \<Rightarrow> auth_state" where
  "signOut_resume r s =
     (case r of
        Fulfilled _ \<Rightarrow> s\<lparr> user := None, profile := None \<rparr>
      | Rejected m \<Rightarrow> s)"

subsection \<open>initAuth\<close>

text \<open>The callback of the 30000 ms timer.\<close>

definition initTimeout_cb :: "auth_state \<Rightarrow> auth_state" where
  "initTimeout_cb s = s\<lparr> error := Some timeoutMessage, loading := False \<rparr>"

text \<open>\<^verbatim>\<open>initAuth\<close> up to \<^verbatim>\<open>await supabase.auth.getSession()\<close>.\<close>

definition initAuth_call :: "auth_state \<Rightarrow> auth_state" where
  "initAuth_call s =
     (let (h, s1) = setTimeout InitTimeout 30000 s
      in s1\<lparr> timeoutId := Some h, calls := calls s1 @ [GetSession],
              initPc := AwaitGetSession \<rparr>)"

text \<open>The \<^verbatim>\<open>catch\<close> block of \<^verbatim>\<open>initAuth\<close>.\<close>

definition initAuth_catch :: "string \<Rightarrow> auth_state \<Rightarrow> auth_state" where
  "initAuth_catch m s =
     (let s1 = s\<lparr> user := None, profile := None,
                  error := Some (''Authentication failed: '' @ m) \<rparr>;
          s2 = clearTimeout (timeoutId s1) s1
      in s2\<lparr> loading := False, initPc := InitFinished \<rparr>)"

text \<open>The last statements of the \<^verbatim>\<open>try\<close> block.\<close>

definition initAuth_complete :: "auth_state \<Rightarrow> auth_state" where
  "initAuth_complete s =
     (let s1 = clearTimeout (timeoutId s) s
      in s1\<lparr> loading := False, initPc := InitFinished \<rparr>)"

text \<open>
  \<^verbatim>\<open>initAuth\<close> once \<^verbatim>\<open>getSession\<close> has settled with
  \<^verbatim>\<open>{ data: { session }, error }\<close> or has rejected.
\<close>

definition initAuth_afterGetSession ::
  "(Session option \<times> string option) settled \<Rightarrow> auth_state \<Rightarrow> auth_state" where
  "initAuth_afterGetSession r s =
     (case r of
        Rejected m \<Rightarrow> initAuth_catch m s
      | Fulfilled (session, Some m) \<Rightarrow> initAuth_catch m s
      | Fulfilled (session, None) \<Rightarrow>
          (let currentUser = map_option session_user session;
               s1 = s\<lparr> user := currentUser \<rparr>
           in case currentUser of
                Some u \<Rightarrow> (fetchProfile_call FromInit u s1)\<lparr> initPc := AwaitFetchProfile \<rparr>
              | None \<Rightarrow> initAuth_complete s1))"

definition initAuth_afterFetchProfile :: "UserProfile option settled \<Rightarrow> auth_state \<Rightarrow> auth_state" where
  "initAuth_afterFetchProfile r s = initAuth_complete (fetchProfile_resume r s)"

subsection \<open>The effect, its listener and its cleanup\<close>

definition onAuthStateChange_cb :: "AuthChangeEvent \<Rightarrow> Session option \<Rightarrow> auth_state \<Rightarrow> auth_state" where
  "onAuthStateChange_cb event session s =
     (let currentUser = map_option session_user session;
          s1 = s\<lparr> user := currentUser \<rparr>;
          s2 = (case currentUser of
                  Some u \<Rightarrow>
                    if event = SIGNED_IN
                    then snd (setTimeout (DeferredFetchProfile u) 0 s1)
                    else s1
                | None \<Rightarrow> s1\<lparr> profile := None \<rparr>)
      in if initialized s2 then s2\<lparr> loading := False \<rparr> else s2)"

text \<open>
  The body of the \<^verbatim>\<open>useEffect\<close>: the guard on the ref, the listener, the start of
  \<^verbatim>\<open>initAuth\<close>. A guarded run returns no cleanup function.
\<close>

definition authEffect :: "auth_state \<Rightarrow> auth_state" where
  "authEffect s =
     (if initialized s then s
      else initAuth_call (s\<lparr> initialized := True, listening := True,
                               cleanupRegistered := True \<rparr>))"

definition authEffect_cleanup :: "auth_state \<Rightarrow> auth_state" where
  "authEffect_cleanup s =
     (if cleanupRegistered s
      then (clearTimeout (timeoutId s) s)\<lparr> listening := False, cleanupRegistered := False \<rparr>
      else s)"

subsection \<open>Running timers\<close>

fun run_task :: "timer_task \<Rightarrow> auth_state \<Rightarrow> auth_state" where
  "run_task InitTimeout s = initTimeout_cb s"
| "run_task (DeferredFetchProfile u) s =
     (fetchProfile_call FromListener u s)\<lparr> pendingFetches := pendingFetches s @ [u] \<rparr>"

text \<open>
  Time passes: the clock moves on by \<open>d\<close> milliseconds and every timer that has come due
  runs, earliest first, timers of equal due time in the order they were set.
\<close>

definition advance :: "nat \<Rightarrow> auth_state \<Rightarrow> auth_state" where
  "advance d s =
     (let now = clock s + d;
          due = filter (\<lambda>t. fst (snd t) \<le> now) (timers s);
          rest = filter (\<lambda>t. \<not> fst (snd t) \<le> now) (timers s)
      in fold run_task (map (\<lambda>t. snd (snd t)) (sort_key (\<lambda>t. fst (snd t)) due))
           (s\<lparr> clock := now, timers := rest \<rparr>))"

subsection \<open>Events\<close>

datatype auth_event =
  Mount
  | Cleanup
  | GetSessionSettled "(Session option \<times> string option) settled"
  | InitProfileSettled "UserProfile option settled"
  | AuthStateChange AuthChangeEvent "Session option"
  | ListenerProfileSettled nat "UserProfile option settled"
  | Elapse nat
  | RefreshProfile
  | RefreshSettled "UserProfile option settled"
  | SignOut
  | SignOutSettled "unit settled"

fun auth_step :: "auth_event \<Rightarrow> auth_state \<Rightarrow> auth_state" where
  "auth_step Mount s = authEffect s"
| "auth_step Cleanup s = authEffect_cleanup s"
| "auth_step (GetSessionSettled r) s =
     (if initPc s = AwaitGetSession then initAuth_afterGetSession r s else s)"
| "auth_step (InitProfileSettled r) s =
     (if initPc s = AwaitFetchProfile then initAuth_afterFetchProfile r s else s)"
| "auth_step (AuthStateChange event session) s =
     (if listening s then onAuthStateChange_cb event session s else s)"
| "auth_step (ListenerProfileSettled i r) s =
     (if i < length (pendingFetches s)
      then fetchProfile_resume r
             (s\<lparr> pendingFetches := take i (pendingFetches s) @ drop (Suc i) (pendingFetches s) \<rparr>)
      else s)"
| "auth_step (Elapse d) s = advance d s"
| "auth_step RefreshProfile s = refreshProfile_call s"
| "auth_step (RefreshSettled r) s =
     (if 0 < pendingRefreshes s
      then refreshProfile_resume r (s\<lparr> pendingRefreshes := pendingRefreshes s - 1 \<rparr>)
      else s)"
| "auth_step SignOut s = signOut_call s"
| "auth_step (SignOutSettled r) s =
     (if 0 < pendingSignOuts s
      then signOut_resume r (s\<lparr> pendingSignOuts := pendingSignOuts s - 1 \<rparr>)
      else s)"

definition auth_run :: "auth_event list \<Rightarrow> auth_state \<Rightarrow> auth_state" where
  "auth_run evs s = fold auth_step evs s"

section \<open>RoomPage.tsx: the room view\<close>

subsection \<open>Strings\<close>

text \<open>
  A JavaScript string is a sequence of UTF-16 code units. \<^verbatim>\<open>String.prototype.trim\<close>
  removes the white space and line terminators of ECMAScript from both ends.
\<close>

type_synonym js_string = "nat list"

definition lit :: "string \<Rightarrow> js_string" where
  "lit cs = map of_char cs"

definition isWhiteSpace :: "nat \<Rightarrow> bool" where
  "isWhiteSpace c =
     (c \<in> set [9, 10, 11, 12, 13, 32, 160, 5760, 8232, 8233, 8239, 8287, 12288, 65279]
      \<or> (8192 \<le> c \<and> c \<le> 8202))"

definition trim :: "js_string \<Rightarrow> js_string" where
  "trim cs = rev (dropWhile isWhiteSpace (rev (dropWhile isWhiteSpace cs)))"


subsection \<open>Data\<close>

text \<open>
  Modelled from the spec: the declarations of \<^verbatim>\<open>Room\<close>, \<^verbatim>\<open>RoomMember\<close> and
  \<^verbatim>\<open>Message\<close> (lib/rooms) are not part of the sources at hand. The page reads a
  message's \<^verbatim>\<open>id\<close>, \<^verbatim>\<open>user_id\<close>, \<^verbatim>\<open>content\<close>, \<^verbatim>\<open>created_at\<close> and
  \<^verbatim>\<open>profile\<close>; \<^verbatim>\<open>created_at\<close> is kept as a number of milliseconds.
\<close>

record ProfileData =
  pd_full_name :: js_string
  pd_avatar_url :: "js_string option"

record Message =
  msg_id :: js_string
  msg_room_id :: js_string
  msg_user_id :: js_string
  content :: js_string
  created_at :: nat
  msg_profile :: "ProfileData option"

record Room =
  room_id :: js_string
  room_name :: js_string
  creator_id :: js_string

datatype role = admin | member

record RoomMember =
  member_room_id :: js_string
  member_user_id :: js_string
  member_role :: role

text \<open>The reads of the snapshot load and the other calls to lib/rooms and lib/storage.\<close>

datatype room_call =
  GetRoom js_string
  | GetRoomMembers js_string
  | GetMessages js_string
  | IsRoomMember js_string
  | SelectProfile js_string
  | UploadChatMedia js_string
  | JoinRoom js_string
  | LeaveRoom js_string

text \<open>Which handler issued a \<^verbatim>\<open>sendMessage\<close>.\<close>

datatype sender = TextSend | ImageSend

datatype channel_op = Subscribe js_string | RemoveChannel js_string

text \<open>
  The \<^verbatim>\<open>useState\<close> cells of the page (the two that only open the sidebar and the
  modal are left out), its route parameter and the user of the auth context, and the
  environment: the open realtime channels of the supabase client, the dependencies and
  the cleanup closure of the last run of the subscription effect, the suspended
  asynchronous calls, and the logs of calls, toasts and navigations.
\<close>

record room_state =
  roomId :: "js_string option"
  rp_user :: "User option"
  room :: "Room option"
  members :: "RoomMember list"
  messages :: "Message list"
  newMessage :: js_string
  isMember :: bool
  rp_loading :: bool
  sendingMessage :: bool
  uploadingFile :: bool
  mounted :: bool
  channels :: "js_string list"
  channelLog :: "channel_op list"
  effectDeps :: "(js_string option \<times> bool) option"
  effectCleanup :: "(js_string \<times> js_string) option"
  pendingLoads :: nat
  pendingLookups :: "Message list"
  pendingRefetches :: nat
  pendingUploads :: "js_string list"
  pendingJoins :: nat
  pendingLeaves :: nat
  sendsInFlight :: "(sender \<times> js_string \<times> js_string) list"
  sendLog :: "(sender \<times> js_string \<times> js_string) list"
  roomCalls :: "room_call list"
  toasts :: "(string \<times> string) list"
  navigations :: "string list"

definition initial_room :: "js_string option \<Rightarrow> User option \<Rightarrow> room_state" where
  "initial_room rid u = \<lparr> roomId = rid, rp_user = u, room = None, members = [],
     messages = [], newMessage = [], isMember = False, rp_loading = True,
     sendingMessage = False, uploadingFile = False, mounted = True, channels = [],
     channelLog = [], effectDeps = None, effectCleanup = None, pendingLoads = 0,
     pendingLookups = [], pendingRefetches = 0, pendingUploads = [], pendingJoins = 0,
     pendingLeaves = 0, sendsInFlight = [], sendLog = [], roomCalls = [], toasts = [],
     navigations = [] \<rparr>"

subsection \<open>loadRoomData\<close>

text \<open>\<^verbatim>\<open>loadRoomData\<close> up to \<^verbatim>\<open>await Promise.all([...])\<close>.\<close>

definition loadRoomData_call :: "room_state \<Rightarrow> room_state" where
  "loadRoomData_call s =
     (case roomId s of
        None \<Rightarrow> s
      | Some rid \<Rightarrow>
          if rid = [] \<or> rp_user s = None then s
          else s\<lparr> rp_loading := True,
                  roomCalls := roomCalls s @
                    [GetRoom rid, GetRoomMembers rid, GetMessages rid, IsRoomMember rid],
                  pendingLoads := Suc (pendingLoads s) \<rparr>)"

text \<open>
  \<^verbatim>\<open>loadRoomData\<close> after the \<^verbatim>\<open>await\<close>. \<^verbatim>\<open>Promise.all\<close> rejects as soon as one
  of the four reads rejects, which leads to the \<^verbatim>\<open>catch\<close>; \<^verbatim>\<open>finally\<close> runs on
  every path.
\<close>

definition loadRoomData_resume ::
  "Room option settled \<Rightarrow> RoomMember list settled \<Rightarrow> Message list settled \<Rightarrow> bool settled \<Rightarrow>
     room_state \<Rightarrow> room_state" where
  "loadRoomData_resume r1 r2 r3 r4 s =
     (case (r1, r2, r3, r4) of
        (Fulfilled roomData, Fulfilled membersData, Fulfilled messagesData,
         Fulfilled membershipStatus) \<Rightarrow>
          (case roomData of
             None \<Rightarrow>
               s\<lparr> toasts := toasts s @
                      [(''Room not found'', ''This room doesn't exist or has been deleted.'')],
                  navigations := navigations s @ [''/home''],
                  rp_loading := False \<rparr>
           | Some rd \<Rightarrow>
               s\<lparr> room := Some rd, members := membersData, messages := messagesData,
                  isMember := membershipStatus, rp_loading := False \<rparr>)
      | _ \<Rightarrow>
          s\<lparr> toasts := toasts s @ [(''Error'', ''Failed to load room data.'')],
             rp_loading := False \<rparr>)"

subsection \<open>The subscription effect\<close>

definition messagesChannel :: "js_string \<Rightarrow> js_string" where
  "messagesChannel rid = lit ''messages-'' @ rid"

definition membersChannel :: "js_string \<Rightarrow> js_string" where
  "membersChannel rid = lit ''members-'' @ rid"

text \<open>\<^verbatim>\<open>supabase.channel(name).on(...).subscribe()\<close> and \<^verbatim>\<open>supabase.removeChannel\<close>.\<close>

definition subscribe :: "js_string \<Rightarrow> room_state \<Rightarrow> room_state" where
  "subscribe name s =
     s\<lparr> channels := channels s @ [name], channelLog := channelLog s @ [Subscribe name] \<rparr>"

definition removeChannel :: "js_string \<Rightarrow> room_state \<Rightarrow> room_state" where
  "removeChannel name s =
     s\<lparr> channels := remove1 name (channels s),
        channelLog := channelLog s @ [RemoveChannel name] \<rparr>"

text \<open>The body of the effect: the guard, the two subscriptions, the cleanup it returns.\<close>

definition realtime_body :: "room_state \<Rightarrow> room_state" where
  "realtime_body s =
     (case roomId s of
        None \<Rightarrow> s\<lparr> effectCleanup := None \<rparr>
      | Some rid \<Rightarrow>
          if rid = [] \<or> \<not> isMember s then s\<lparr> effectCleanup := None \<rparr>
          else (subscribe (membersChannel rid) (subscribe (messagesChannel rid) s))
                 \<lparr> effectCleanup := Some (messagesChannel rid, membersChannel rid) \<rparr>)"

definition realtime_cleanup :: "room_state \<Rightarrow> room_state" where
  "realtime_cleanup s =
     (case effectCleanup s of
        None \<Rightarrow> s
      | Some (messagesCh, membersCh) \<Rightarrow>
          (removeChannel membersCh (removeChannel messagesCh s))\<lparr> effectCleanup := None \<rparr>)"

text \<open>
  What React does with the effect after a render: when \<^verbatim>\<open>[roomId, isMember]\<close> differ
  from the last run (or on the first run), the cleanup of the last run is called and
  then the body.
\<close>

definition flushRealtime :: "room_state \<Rightarrow> room_state" where
  "flushRealtime s =
     (if \<not> mounted s \<or> effectDeps s = Some (roomId s, isMember s) then s
      else realtime_body
             ((realtime_cleanup s)\<lparr> effectDeps := Some (roomId s, isMember s) \<rparr>))"

subsection \<open>The handlers of the two channels\<close>

text \<open>The INSERT handler up to the \<^verbatim>\<open>await\<close> of the profile lookup.\<close>

definition messagesInsert_call :: "Message \<Rightarrow> room_state \<Rightarrow> room_state" where
  "messagesInsert_call payload s =
     s\<lparr> roomCalls := roomCalls s @ [SelectProfile (msg_user_id payload)],
        pendingLookups := pendingLookups s @ [payload] \<rparr>"

text \<open>
  The INSERT handler after the lookup. The query builder resolves with
  \<^verbatim>\<open>{ data, error }\<close>: a failed lookup and a lookup without a row both come back as
  \<^verbatim>\<open>data = null\<close> with \<^verbatim>\<open>error\<close> set. The handler reads \<^verbatim>\<open>data\<close> only.
\<close>

definition messagesInsert_resume ::
  "Message \<Rightarrow> ProfileData option \<times> string option \<Rightarrow> room_state \<Rightarrow> room_state" where
  "messagesInsert_resume payload response s =
     (let profileData = fst response
      in s\<lparr> messages := messages s @ [payload\<lparr> msg_profile := profileData \<rparr>] \<rparr>)"

definition membersChange_call :: "js_string \<Rightarrow> room_state \<Rightarrow> room_state" where
  "membersChange_call rid s =
     s\<lparr> roomCalls := roomCalls s @ [GetRoomMembers rid],
        pendingRefetches := Suc (pendingRefetches s) \<rparr>"

definition membersChange_resume :: "RoomMember list settled \<Rightarrow> room_state \<Rightarrow> room_state" where
  "membersChange_resume r s =
     (case r of Fulfilled membersData \<Rightarrow> s\<lparr> members := membersData \<rparr> | Rejected m \<Rightarrow> s)"

subsection \<open>Sending\<close>

text \<open>\<^verbatim>\<open>sendMessage(roomId, content)\<close> is issued.\<close>

definition sendMessage_call :: "sender \<Rightarrow> js_string \<Rightarrow> js_string \<Rightarrow> room_state \<Rightarrow> room_state" where
  "sendMessage_call who rid body s =
     s\<lparr> sendsInFlight := sendsInFlight s @ [(who, rid, body)],
        sendLog := sendLog s @ [(who, rid, body)] \<rparr>"

definition handleSendMessage_call :: "room_state \<Rightarrow> room_state" where
  "handleSendMessage_call s =
     (case roomId s of
        None \<Rightarrow> s
      | Some rid \<Rightarrow>
          if trim (newMessage s) = [] \<or> rid = [] \<or> sendingMessage s then s
          else sendMessage_call TextSend rid (newMessage s) (s\<lparr> sendingMessage := True \<rparr>))"

definition sendFailedToast :: "string \<times> string" where
  "sendFailedToast = (''Error'', ''Failed to send message.'')"

definition handleSendMessage_resume :: "Message option settled \<Rightarrow> room_state \<Rightarrow> room_state" where
  "handleSendMessage_resume r s =
     (case r of
        Fulfilled (Some message) \<Rightarrow> s\<lparr> newMessage := [], sendingMessage := False \<rparr>
      | Fulfilled None \<Rightarrow>
          s\<lparr> toasts := toasts s @ [sendFailedToast], sendingMessage := False \<rparr>
      | Rejected m \<Rightarrow>
          s\<lparr> toasts := toasts s @ [sendFailedToast], sendingMessage := False \<rparr>)"

text \<open>The content of an image message: the camera emoji (a surrogate pair) and a link.\<close>

definition imageContent :: "js_string \<Rightarrow> js_string" where
  "imageContent fileUrl = [55357, 56567] @ lit '' [Image]('' @ fileUrl @ lit '')''"

definition handleFileUpload_call :: "bool \<Rightarrow> room_state \<Rightarrow> room_state" where
  "handleFileUpload_call hasFile s =
     (case roomId s of
        None \<Rightarrow> s
      | Some rid \<Rightarrow>
          if \<not> hasFile \<or> rid = [] \<or> rp_user s = None then s
          else s\<lparr> uploadingFile := True,
                  roomCalls := roomCalls s @ [UploadChatMedia rid],
                  pendingUploads := pendingUploads s @ [rid] \<rparr>)"

definition uploadFailedToast :: "string \<Rightarrow> string \<times> string" where
  "uploadFailedToast m = (''Upload failed'', if m = [] then ''Failed to upload image.'' else m)"

text \<open>
  \<^verbatim>\<open>handleFileUpload\<close> once \<^verbatim>\<open>uploadChatMedia\<close> has settled, for the upload that
  captured the room \<open>rid\<close>. A truthy URL leads to \<^verbatim>\<open>sendMessage\<close>, whatever
  \<^verbatim>\<open>sendingMessage\<close> is.
\<close>

definition handleFileUpload_afterUpload ::
  "js_string \<Rightarrow> js_string option settled \<Rightarrow> room_state \<Rightarrow> room_state" where
  "handleFileUpload_afterUpload rid r s =
     (case r of
        Rejected m \<Rightarrow> s\<lparr> toasts := toasts s @ [uploadFailedToast m], uploadingFile := False \<rparr>
      | Fulfilled None \<Rightarrow> s\<lparr> uploadingFile := False \<rparr>
      | Fulfilled (Some fileUrl) \<Rightarrow>
          if fileUrl = [] then s\<lparr> uploadingFile := False \<rparr>
          else sendMessage_call ImageSend rid (imageContent fileUrl) s)"

definition handleFileUpload_afterSend :: "Message option settled \<Rightarrow> room_state \<Rightarrow> room_state" where
  "handleFileUpload_afterSend r s =
     (case r of
        Fulfilled (Some message) \<Rightarrow> s\<lparr> uploadingFile := False \<rparr>
      | Fulfilled None \<Rightarrow>
          s\<lparr> toasts := toasts s @ [(''Error'', ''Failed to send image.'')],
             uploadingFile := False \<rparr>
      | Rejected m \<Rightarrow>
          s\<lparr> toasts := toasts s @ [uploadFailedToast m], uploadingFile := False \<rparr>)"

subsection \<open>Joining and leaving\<close>

definition handleJoinRoom_call :: "room_state \<Rightarrow> room_state" where
  "handleJoinRoom_call s =
     (case roomId s of
        None \<Rightarrow> s
      | Some rid \<Rightarrow>
          if rid = [] then s
          else s\<lparr> roomCalls := roomCalls s @ [JoinRoom rid],
                  pendingJoins := Suc (pendingJoins s) \<rparr>)"

definition handleJoinRoom_resume :: "unit settled \<Rightarrow> room_state \<Rightarrow> room_state" where
  "handleJoinRoom_resume r s =
     (case r of
        Fulfilled _ \<Rightarrow>
          s\<lparr> isMember := True,
             toasts := toasts s @ [(''Joined room!'', ''Welcome to the study room!'')] \<rparr>
      | Rejected m \<Rightarrow>
          s\<lparr> toasts := toasts s @
                 [(''Failed to join'', if m = [] then ''Could not join the room.'' else m)] \<rparr>)"

definition handleLeaveRoom_call :: "room_state \<Rightarrow> room_state" where
  "handleLeaveRoom_call s =
     (case roomId s of
        None \<Rightarrow> s
      | Some rid \<Rightarrow>
          if rid = [] then s
          else s\<lparr> roomCalls := roomCalls s @ [LeaveRoom rid],
                  pendingLeaves := Suc (pendingLeaves s) \<rparr>)"

definition handleLeaveRoom_resume :: "unit settled \<Rightarrow> room_state \<Rightarrow> room_state" where
  "handleLeaveRoom_resume r s =
     (case r of
        Fulfilled _ \<Rightarrow>
          s\<lparr> toasts := toasts s @ [(''Left room'', ''You have left the study room.'')],
             navigations := navigations s @ [''/home''] \<rparr>
      | Rejected m \<Rightarrow> s\<lparr> toasts := toasts s @ [(''Error'', ''Failed to leave room.'')] \<rparr>)"

subsection \<open>Events\<close>

datatype room_event =
  LoadSettled "Room option settled" "RoomMember list settled" "Message list settled"
    "bool settled"
  | MessageInserted Message
  | LookupSettled nat "ProfileData option \<times> string option"
  | MembersChanged js_string
  | RefetchSettled "RoomMember list settled"
  | TypeText js_string
  | SendPressed
  | TextSendSettled "Message option settled"
  | FileChosen bool
  | UploadSettled nat "js_string option settled"
  | ImageSendSettled nat "Message option settled"
  | JoinPressed
  | JoinSettled "unit settled"
  | LeavePressed
  | LeaveSettled "unit settled"
  | RouteChanged "js_string option"
  | UserChanged "User option"
  | Unmount

definition remove_nth :: "nat \<Rightarrow> 'a list \<Rightarrow> 'a list" where
  "remove_nth i xs = take i xs @ drop (Suc i) xs"

text \<open>
  What an event does before React renders again. A change event reaches a handler only
  through an open channel; a click or a key reaches a handler only while the page is
  mounted; a suspended call resumes only if it is suspended. A new route parameter or a
  new user object of the auth context runs the \<^verbatim>\<open>loadRoomData\<close> effect again.
\<close>

fun room_handle :: "room_event \<Rightarrow> room_state \<Rightarrow> room_state" where
  "room_handle (LoadSettled r1 r2 r3 r4) s =
     (if 0 < pendingLoads s
      then loadRoomData_resume r1 r2 r3 r4 (s\<lparr> pendingLoads := pendingLoads s - 1 \<rparr>)
      else s)"
| "room_handle (MessageInserted payload) s =
     (if messagesChannel (msg_room_id payload) \<in> set (channels s)
      then messagesInsert_call payload s else s)"
| "room_handle (LookupSettled i response) s =
     (if i < length (pendingLookups s)
      then messagesInsert_resume (pendingLookups s ! i) response
             (s\<lparr> pendingLookups := remove_nth i (pendingLookups s) \<rparr>)
      else s)"
| "room_handle (MembersChanged rid) s =
     (if membersChannel rid \<in> set (channels s) then membersChange_call rid s else s)"
| "room_handle (RefetchSettled r) s =
     (if 0 < pendingRefetches s
      then membersChange_resume r (s\<lparr> pendingRefetches := pendingRefetches s - 1 \<rparr>)
      else s)"
| "room_handle (TypeText t) s = (if mounted s then s\<lparr> newMessage := t \<rparr> else s)"
| "room_handle SendPressed s = (if mounted s then handleSendMessage_call s else s)"
| "room_handle (TextSendSettled r) s =
     (case filter (\<lambda>x. fst x = TextSend) (sendsInFlight s) of
        [] \<Rightarrow> s
      | x # xs \<Rightarrow>
          handleSendMessage_resume r (s\<lparr> sendsInFlight := remove1 x (sendsInFlight s) \<rparr>))"
| "room_handle (FileChosen hasFile) s =
     (if mounted s then handleFileUpload_call hasFile s else s)"
| "room_handle (UploadSettled i r) s =
     (if i < length (pendingUploads s)
      then handleFileUpload_afterUpload (pendingUploads s ! i) r
             (s\<lparr> pendingUploads := remove_nth i (pendingUploads s) \<rparr>)
      else s)"
| "room_handle (ImageSendSettled i r) s =
     (if i < length (sendsInFlight s) \<and> fst (sendsInFlight s ! i) = ImageSend
      then handleFileUpload_afterSend r (s\<lparr> sendsInFlight := remove_nth i (sendsInFlight s) \<rparr>)
      else s)"
| "room_handle JoinPressed s = (if mounted s then handleJoinRoom_call s else s)"
| "room_handle (JoinSettled r) s =
     (if 0 < pendingJoins s
      then handleJoinRoom_resume r (s\<lparr> pendingJoins := pendingJoins s - 1 \<rparr>)
      else s)"
| "room_handle LeavePressed s = (if mounted s then handleLeaveRoom_call s else s)"
| "room_handle (LeaveSettled r) s =
     (if 0 < pendingLeaves s
      then handleLeaveRoom_resume r (s\<lparr> pendingLeaves := pendingLeaves s - 1 \<rparr>)
      else s)"
| "room_handle (RouteChanged rid) s =
     (if mounted s \<and> rid \<noteq> roomId s then loadRoomData_call (s\<lparr> roomId := rid \<rparr>) else s)"
| "room_handle (UserChanged u) s =
     (if mounted s then loadRoomData_call (s\<lparr> rp_user := u \<rparr>) else s)"
| "room_handle Unmount s =
     (if mounted s then (realtime_cleanup s)\<lparr> mounted := False \<rparr> else s)"

text \<open>An event, then the effects of the render it causes.\<close>

definition room_step :: "room_event \<Rightarrow> room_state \<Rightarrow> room_state" where
  "room_step e s = flushRealtime (room_handle e s)"

definition room_run :: "room_event list \<Rightarrow> room_state \<Rightarrow> room_state" where
  "room_run evs s = fold room_step evs s"

text \<open>The page right after its first render: both effects have run once.\<close>

definition room_mount :: "js_string option \<Rightarrow> User option \<Rightarrow> room_state" where
  "room_mount rid u = flushRealtime (loadRoomData_call (initial_room rid u))"

subsection \<open>Observations on the session store\<close>

text \<open>
  What the statements below observe: how often the initialization sequence issued its
  network steps, how much time a run of events takes, which runs leave the session
  fetch pending, and the invariants of the timer queue.
\<close>

definition sessionFetches :: "auth_state \<Rightarrow> nat" where
  "sessionFetches s = length (filter (\<lambda>c. c = GetSession) (calls s))"

fun is_init_profile_call :: "net_call \<Rightarrow> bool" where
  "is_init_profile_call (CreateOrUpdateProfile FromInit u) = True"
| "is_init_profile_call c = False"

definition initProfileFetches :: "auth_state \<Rightarrow> nat" where
  "initProfileFetches s = length (filter is_init_profile_call (calls s))"

definition init_once :: "auth_state \<Rightarrow> bool" where
  "init_once s =
     ((initialized s \<longleftrightarrow> initPc s \<noteq> NotStarted) \<and>
      sessionFetches s = (if initialized s then 1 else 0) \<and>
      (initPc s = NotStarted \<or> initPc s = AwaitGetSession \<longrightarrow> initProfileFetches s = 0) \<and>
      initProfileFetches s \<le> 1)"

fun task_calls :: "timer_task \<Rightarrow> net_call list" where
  "task_calls InitTimeout = []"
| "task_calls (DeferredFetchProfile u) = [CreateOrUpdateProfile FromListener u]"

fun task_users :: "timer_task \<Rightarrow> User list" where
  "task_users InitTimeout = []"
| "task_users (DeferredFetchProfile u) = [u]"

definition due_tasks :: "nat \<Rightarrow> auth_state \<Rightarrow> timer_task list" where
  "due_tasks d s =
     map (\<lambda>t. snd (snd t))
       (sort_key (\<lambda>t. fst (snd t)) (filter (\<lambda>t. fst (snd t) \<le> clock s + d) (timers s)))"

fun event_ms :: "auth_event \<Rightarrow> nat" where
  "event_ms (Elapse d) = d"
| "event_ms e = 0"

definition elapsed :: "auth_event list \<Rightarrow> nat" where
  "elapsed evs = sum_list (map event_ms evs)"

fun session_pending :: "auth_event \<Rightarrow> bool" where
  "session_pending (GetSessionSettled r) = False"
| "session_pending Cleanup = False"
| "session_pending e = True"

text \<open>
  Events other than the settling of the session fetch, events other than the settling
  of the profile resolution of \<^verbatim>\<open>initAuth\<close>, and the outcomes of the session fetch
  after which \<^verbatim>\<open>initAuth\<close> goes on to resolve the profile (a session without error).
\<close>

fun session_unsettled :: "auth_event \<Rightarrow> bool" where
  "session_unsettled (GetSessionSettled r) = False"
| "session_unsettled e = True"

fun profile_unsettled :: "auth_event \<Rightarrow> bool" where
  "profile_unsettled (InitProfileSettled r) = False"
| "profile_unsettled e = True"

fun needs_profile :: "(Session option \<times> string option) settled \<Rightarrow> bool" where
  "needs_profile (Fulfilled (Some session, None)) = True"
| "needs_profile r = False"

fun no_listener_event :: "auth_event \<Rightarrow> bool" where
  "no_listener_event (AuthStateChange ev ss) = False"
| "no_listener_event e = True"

definition timer_inv :: "auth_state \<Rightarrow> bool" where
  "timer_inv s =
     ((\<forall>t\<in>set (timers s). snd (snd t) = InitTimeout \<longrightarrow>
          timeoutId s = Some (fst t) \<and> 30000 \<le> fst (snd t)) \<and>
      (initPc s = NotStarted \<or> initPc s = InitFinished \<longrightarrow>
          (\<forall>t\<in>set (timers s). snd (snd t) \<noteq> InitTimeout)) \<and>
      (initialized s \<and> \<not> cleanupRegistered s \<longrightarrow>
          (\<forall>t\<in>set (timers s). snd (snd t) \<noteq> InitTimeout)) \<and>
      (initialized s \<longleftrightarrow> initPc s \<noteq> NotStarted) \<and>
      (error s = Some timeoutMessage \<longrightarrow> 30000 \<le> clock s))"

definition await_inv :: "auth_state \<Rightarrow> bool" where
  "await_inv s =
     (initialized s \<and> initPc s = AwaitGetSession \<and>
      (clock s < 30000 \<longrightarrow> (\<exists>h. (h, 30000, InitTimeout) \<in> set (timers s))))"

definition quiet_inv :: "auth_state \<Rightarrow> bool" where
  "quiet_inv s =
     (initialized s \<and> initPc s = AwaitGetSession \<and> user s = None \<and>
      pendingFetches s = [] \<and> pendingRefreshes s = 0 \<and>
      (\<forall>t\<in>set (timers s). snd t = (30000, InitTimeout)) \<and>
      (if clock s < 30000
       then loading s \<and> error s = None \<and> timers s \<noteq> []
       else \<not> loading s \<and> error s = Some timeoutMessage))"

text \<open>The timer of the initialization is gone for good and has not fired.\<close>

definition disarmed_inv :: "auth_state \<Rightarrow> bool" where
  "disarmed_inv s =
     (timer_inv s \<and> initialized s \<and>
      (\<forall>t\<in>set (timers s). snd (snd t) \<noteq> InitTimeout) \<and>
      error s \<noteq> Some timeoutMessage)"

subsection \<open>Observations on the room view\<close>

text \<open>The channels the subscription effect holds open for a room and a membership flag.\<close>

definition bridge_for :: "js_string option \<Rightarrow> bool \<Rightarrow> js_string list" where
  "bridge_for r m =
     (case r of
        None \<Rightarrow> []
      | Some rid \<Rightarrow> if rid = [] \<or> \<not> m then [] else [messagesChannel rid, membersChannel rid])"

text \<open>
  Between an event and the effects of its render: the open channels are those of the
  last run of the effect, and the cleanup closure holds exactly them.
\<close>

definition held :: "(js_string option \<times> bool) option \<Rightarrow> bool \<Rightarrow> js_string list" where
  "held deps m =
     (case deps of None \<Rightarrow> [] | Some d \<Rightarrow> if m then bridge_for (fst d) (snd d) else [])"

definition closure_of :: "js_string list \<Rightarrow> (js_string \<times> js_string) option" where
  "closure_of chs = (case chs of [a, b] \<Rightarrow> Some (a, b) | _ \<Rightarrow> None)"

definition sub_inv :: "room_state \<Rightarrow> bool" where
  "sub_inv s =
     (channels s = held (effectDeps s) (mounted s) \<and>
      effectCleanup s = closure_of (channels s))"

text \<open>After the effects of a render: the last run of the effect is the current one.\<close>

definition bridge_inv :: "room_state \<Rightarrow> bool" where
  "bridge_inv s = (sub_inv s \<and> (mounted s \<longrightarrow> effectDeps s = Some (roomId s, isMember s)))"

text \<open>Blank content: empty, or white space only.\<close>

definition blank :: "js_string \<Rightarrow> bool" where
  "blank cs = list_all isWhiteSpace cs"

definition textSends :: "room_state \<Rightarrow> nat" where
  "textSends s = length (filter (\<lambda>x. fst x = TextSend) (sendsInFlight s))"

definition send_inv :: "room_state \<Rightarrow> bool" where
  "send_inv s =
     (textSends s = (if sendingMessage s then 1 else 0) \<and>
      list_all (\<lambda>x. \<not> blank (snd (snd x))) (sendLog s))"

fun rejected :: "'a settled \<Rightarrow> bool" where
  "rejected (Rejected m) = True"
| "rejected (Fulfilled v) = False"

text \<open>Example values for the concrete runs below.\<close>

definition ex_user :: User where
  "ex_user = \<lparr> user_id = ''u1'', email = ''a@b.c'' \<rparr>"

definition ex_profile :: UserProfile where
  "ex_profile = \<lparr> profile_id = ''u1'', username = ''ada'', full_name = ''Ada'',
     avatar_url = None \<rparr>"

definition ex_room :: Room where
  "ex_room = \<lparr> room_id = [114, 49], room_name = [82], creator_id = [117, 49] \<rparr>"

definition ex_message :: "nat \<Rightarrow> nat \<Rightarrow> Message" where
  "ex_message i t = \<lparr> msg_id = [i], msg_room_id = [114, 49], msg_user_id = [117, 50],
     content = [104, 105], created_at = t, msg_profile = None \<rparr>"

text \<open>The page of room \<open>r1\<close> once its snapshot has loaded with the given history.\<close>

definition ex_loaded :: "Message list \<Rightarrow> room_state" where
  "ex_loaded history =
     room_run [LoadSettled (Fulfilled (Some ex_room)) (Fulfilled []) (Fulfilled history)
                 (Fulfilled True)]
       (room_mount (Some [114, 49]) (Some ex_user))"


section \<open>Properties of the session store\<close>

lemma fst_setTimeout [simp]: "fst (setTimeout task delay s) = nextHandle s"
  by (simp add: setTimeout_def)

lemma setTimeout_sel [simp]:
  "user (snd (setTimeout task delay s)) = user s"
  "profile (snd (setTimeout task delay s)) = profile s"
  "loading (snd (setTimeout task delay s)) = loading s"
  "error (snd (setTimeout task delay s)) = error s"
  "initialized (snd (setTimeout task delay s)) = initialized s"
  "timeoutId (snd (setTimeout task delay s)) = timeoutId s"
  "cleanupRegistered (snd (setTimeout task delay s)) = cleanupRegistered s"
  "listening (snd (setTimeout task delay s)) = listening s"
  "initPc (snd (setTimeout task delay s)) = initPc s"
  "pendingFetches (snd (setTimeout task delay s)) = pendingFetches s"
  "pendingRefreshes (snd (setTimeout task delay s)) = pendingRefreshes s"
  "pendingSignOuts (snd (setTimeout task delay s)) = pendingSignOuts s"
  "timers (snd (setTimeout task delay s)) = timers s @ [(nextHandle s, clock s + delay, task)]"
  "nextHandle (snd (setTimeout task delay s)) = Suc (nextHandle s)"
  "clock (snd (setTimeout task delay s)) = clock s"
  "calls (snd (setTimeout task delay s)) = calls s"
  by (simp_all add: setTimeout_def)

lemma clearTimeout_sel [simp]:
  "user (clearTimeout h s) = user s"
  "profile (clearTimeout h s) = profile s"
  "loading (clearTimeout h s) = loading s"
  "error (clearTimeout h s) = error s"
  "initialized (clearTimeout h s) = initialized s"
  "timeoutId (clearTimeout h s) = timeoutId s"
  "cleanupRegistered (clearTimeout h s) = cleanupRegistered s"
  "listening (clearTimeout h s) = listening s"
  "initPc (clearTimeout h s) = initPc s"
  "pendingFetches (clearTimeout h s) = pendingFetches s"
  "pendingRefreshes (clearTimeout h s) = pendingRefreshes s"
  "pendingSignOuts (clearTimeout h s) = pendingSignOuts s"
  "timers (clearTimeout h s) = (case h of None \<Rightarrow> timers s | Some i \<Rightarrow> filter (\<lambda>t. fst t \<noteq> i) (timers s))"
  "nextHandle (clearTimeout h s) = nextHandle s"
  "clock (clearTimeout h s) = clock s"
  "calls (clearTimeout h s) = calls s"
  by (simp_all add: clearTimeout_def split: option.splits)

lemma fetchProfile_call_sel [simp]:
  "user (fetchProfile_call who u s) = user s"
  "profile (fetchProfile_call who u s) = profile s"
  "loading (fetchProfile_call who u s) = loading s"
  "error (fetchProfile_call who u s) = error s"
  "initialized (fetchProfile_call who u s) = initialized s"
  "timeoutId (fetchProfile_call who u s) = timeoutId s"
  "cleanupRegistered (fetchProfile_call who u s) = cleanupRegistered s"
  "listening (fetchProfile_call who u s) = listening s"
  "initPc (fetchProfile_call who u s) = initPc s"
  "pendingFetches (fetchProfile_call who u s) = pendingFetches s"
  "pendingRefreshes (fetchProfile_call who u s) = pendingRefreshes s"
  "pendingSignOuts (fetchProfile_call who u s) = pendingSignOuts s"
  "timers (fetchProfile_call who u s) = timers s"
  "nextHandle (fetchProfile_call who u s) = nextHandle s"
  "clock (fetchProfile_call who u s) = clock s"
  "calls (fetchProfile_call who u s) = calls s @ [CreateOrUpdateProfile who u]"
  by (simp_all add: fetchProfile_call_def)

lemma fetchProfile_resume_sel [simp]:
  "user (fetchProfile_resume r s) = user s"
  "profile (fetchProfile_resume r s) = (case r of Fulfilled p \<Rightarrow> p | Rejected m \<Rightarrow> None)"
  "loading (fetchProfile_resume r s) = loading s"
  "error (fetchProfile_resume r s) = (case r of Fulfilled None \<Rightarrow> Some (''Failed to load profile: '' @ ''Failed to create/update profile'') | Fulfilled (Some p) \<Rightarrow> None | Rejected m \<Rightarrow> Some (''Failed to load profile: '' @ m))"
  "initialized (fetchProfile_resume r s) = initialized s"
  "timeoutId (fetchProfile_resume r s) = timeoutId s"
  "cleanupRegistered (fetchProfile_resume r s) = cleanupRegistered s"
  "listening (fetchProfile_resume r s) = listening s"
  "initPc (fetchProfile_resume r s) = initPc s"
  "pendingFetches (fetchProfile_resume r s) = pendingFetches s"
  "pendingRefreshes (fetchProfile_resume r s) = pendingRefreshes s"
  "pendingSignOuts (fetchProfile_resume r s) = pendingSignOuts s"
  "timers (fetchProfile_resume r s) = timers s"
  "nextHandle (fetchProfile_resume r s) = nextHandle s"
  "clock (fetchProfile_resume r s) = clock s"
  "calls (fetchProfile_resume r s) = calls s"
  by (simp_all add: fetchProfile_resume_def split: settled.splits option.splits)

lemma refreshProfile_call_sel [simp]:
  "user (refreshProfile_call s) = user s"
  "profile (refreshProfile_call s) = profile s"
  "loading (refreshProfile_call s) = loading s"
  "error (refreshProfile_call s) = error s"
  "initialized (refreshProfile_call s) = initialized s"
  "timeoutId (refreshProfile_call s) = timeoutId s"
  "cleanupRegistered (refreshProfile_call s) = cleanupRegistered s"
  "listening (refreshProfile_call s) = listening s"
  "initPc (refreshProfile_call s) = initPc s"
  "pendingFetches (refreshProfile_call s) = pendingFetches s"
  "pendingRefreshes (refreshProfile_call s) = (case user s of None \<Rightarrow> pendingRefreshes s | Some u \<Rightarrow> Suc (pendingRefreshes s))"
  "pendingSignOuts (refreshProfile_call s) = pendingSignOuts s"
  "timers (refreshProfile_call s) = timers s"
  "nextHandle (refreshProfile_call s) = nextHandle s"
  "clock (refreshProfile_call s) = clock s"
  "calls (refreshProfile_call s) = (case user s of None \<Rightarrow> calls s | Some u \<Rightarrow> calls s @ [GetProfile (user_id u)])"
  by (simp_all add: refreshProfile_call_def split: option.splits)

lemma refreshProfile_resume_sel [simp]:
  "user (refreshProfile_resume r s) = user s"
  "profile (refreshProfile_resume r s) = (case r of Fulfilled p \<Rightarrow> p | Rejected m \<Rightarrow> profile s)"
  "loading (refreshProfile_resume r s) = loading s"
  "error (refreshProfile_resume r s) = (case r of Fulfilled p \<Rightarrow> None | Rejected m \<Rightarrow> Some (''Failed to refresh profile: '' @ m))"
  "initialized (refreshProfile_resume r s) = initialized s"
  "timeoutId (refreshProfile_resume r s) = timeoutId s"
  "cleanupRegistered (refreshProfile_resume r s) = cleanupRegistered s"
  "listening (refreshProfile_resume r s) = listening s"
  "initPc (refreshProfile_resume r s) = initPc s"
  "pendingFetches (refreshProfile_resume r s) = pendingFetches s"
  "pendingRefreshes (refreshProfile_resume r s) = pendingRefreshes s"
  "pendingSignOuts (refreshProfile_resume r s) = pendingSignOuts s"
  "timers (refreshProfile_resume r s) = timers s"
  "nextHandle (refreshProfile_resume r s) = nextHandle s"
  "clock (refreshProfile_resume r s) = clock s"
  "calls (refreshProfile_resume r s) = calls s"
  by (simp_all add: refreshProfile_resume_def split: settled.splits)

lemma signOut_call_sel [simp]:
  "user (signOut_call s) = user s"
  "profile (signOut_call s) = profile s"
  "loading (signOut_call s) = loading s"
  "error (signOut_call s) = error s"
  "initialized (signOut_call s) = initialized s"
  "timeoutId (signOut_call s) = timeoutId s"
  "cleanupRegistered (signOut_call s) = cleanupRegistered s"
  "listening (signOut_call s) = listening s"
  "initPc (signOut_call s) = initPc s"
  "pendingFetches (signOut_call s) = pendingFetches s"
  "pendingRefreshes (signOut_call s) = pendingRefreshes s"
  "pendingSignOuts (signOut_call s) = Suc (pendingSignOuts s)"
  "timers (signOut_call s) = timers s"
  "nextHandle (signOut_call s) = nextHandle s"
  "clock (signOut_call s) = clock s"
  "calls (signOut_call s) = calls s @ [SupabaseSignOut]"
  by (simp_all add: signOut_call_def)

lemma signOut_resume_sel [simp]:
  "user (signOut_resume r s) = (case r of Fulfilled v \<Rightarrow> None | Rejected m \<Rightarrow> user s)"
  "profile (signOut_resume r s) = (case r of Fulfilled v \<Rightarrow> None | Rejected m \<Rightarrow> profile s)"
  "loading (signOut_resume r s) = loading s"
  "error (signOut_resume r s) = error s"
  "initialized (signOut_resume r s) = initialized s"
  "timeoutId (signOut_resume r s) = timeoutId s"
  "cleanupRegistered (signOut_resume r s) = cleanupRegistered s"
  "listening (signOut_resume r s) = listening s"
  "initPc (signOut_resume r s) = initPc s"
  "pendingFetches (signOut_resume r s) = pendingFetches s"
  "pendingRefreshes (signOut_resume r s) = pendingRefreshes s"
  "pendingSignOuts (signOut_resume r s) = pendingSignOuts s"
  "timers (signOut_resume r s) = timers s"
  "nextHandle (signOut_resume r s) = nextHandle s"
  "clock (signOut_resume r s) = clock s"
  "calls (signOut_resume r s) = calls s"
  by (simp_all add: signOut_resume_def split: settled.splits)

lemma initTimeout_cb_sel [simp]:
  "user (initTimeout_cb s) = user s"
  "profile (initTimeout_cb s) = profile s"
  "loading (initTimeout_cb s) = False"
  "error (initTimeout_cb s) = Some timeoutMessage"
  "initialized (initTimeout_cb s) = initialized s"
  "timeoutId (initTimeout_cb s) = timeoutId s"
  "cleanupRegistered (initTimeout_cb s) = cleanupRegistered s"
  "listening (initTimeout_cb s) = listening s"
  "initPc (initTimeout_cb s) = initPc s"
  "pendingFetches (initTimeout_cb s) = pendingFetches s"
  "pendingRefreshes (initTimeout_cb s) = pendingRefreshes s"
  "pendingSignOuts (initTimeout_cb s) = pendingSignOuts s"
  "timers (initTimeout_cb s) = timers s"
  "nextHandle (initTimeout_cb s) = nextHandle s"
  "clock (initTimeout_cb s) = clock s"
  "calls (initTimeout_cb s) = calls s"
  by (simp_all add: initTimeout_cb_def)

lemma initAuth_call_sel [simp]:
  "user (initAuth_call s) = user s"
  "profile (initAuth_call s) = profile s"
  "loading (initAuth_call s) = loading s"
  "error (initAuth_call s) = error s"
  "initialized (initAuth_call s) = initialized s"
  "timeoutId (initAuth_call s) = Some (nextHandle s)"
  "cleanupRegistered (initAuth_call s) = cleanupRegistered s"
  "listening (initAuth_call s) = listening s"
  "initPc (initAuth_call s) = AwaitGetSession"
  "pendingFetches (initAuth_call s) = pendingFetches s"
  "pendingRefreshes (initAuth_call s) = pendingRefreshes s"
  "pendingSignOuts (initAuth_call s) = pendingSignOuts s"
  "timers (initAuth_call s) = timers s @ [(nextHandle s, clock s + 30000, InitTimeout)]"
  "nextHandle (initAuth_call s) = Suc (nextHandle s)"
  "clock (initAuth_call s) = clock s"
  "calls (initAuth_call s) = calls s @ [GetSession]"
  by (simp_all add: initAuth_call_def setTimeout_def Let_def)

lemma initAuth_catch_sel [simp]:
  "user (initAuth_catch m s) = None"
  "profile (initAuth_catch m s) = None"
  "loading (initAuth_catch m s) = False"
  "error (initAuth_catch m s) = Some (''Authentication failed: '' @ m)"
  "initialized (initAuth_catch m s) = initialized s"
  "timeoutId (initAuth_catch m s) = timeoutId s"
  "cleanupRegistered (initAuth_catch m s) = cleanupRegistered s"
  "listening (initAuth_catch m s) = listening s"
  "initPc (initAuth_catch m s) = InitFinished"
  "pendingFetches (initAuth_catch m s) = pendingFetches s"
  "pendingRefreshes (initAuth_catch m s) = pendingRefreshes s"
  "pendingSignOuts (initAuth_catch m s) = pendingSignOuts s"
  "timers (initAuth_catch m s) = timers (clearTimeout (timeoutId s) s)"
  "nextHandle (initAuth_catch m s) = nextHandle s"
  "clock (initAuth_catch m s) = clock s"
  "calls (initAuth_catch m s) = calls s"
  by (simp_all add: initAuth_catch_def clearTimeout_def Let_def split: option.splits)

lemma initAuth_complete_sel [simp]:
  "user (initAuth_complete s) = user s"
  "profile (initAuth_complete s) = profile s"
  "loading (initAuth_complete s) = False"
  "error (initAuth_complete s) = error s"
  "initialized (initAuth_complete s) = initialized s"
  "timeoutId (initAuth_complete s) = timeoutId s"
  "cleanupRegistered (initAuth_complete s) = cleanupRegistered s"
  "listening (initAuth_complete s) = listening s"
  "initPc (initAuth_complete s) = InitFinished"
  "pendingFetches (initAuth_complete s) = pendingFetches s"
  "pendingRefreshes (initAuth_complete s) = pendingRefreshes s"
  "pendingSignOuts (initAuth_complete s) = pendingSignOuts s"
  "timers (initAuth_complete s) = timers (clearTimeout (timeoutId s) s)"
  "nextHandle (initAuth_complete s) = nextHandle s"
  "clock (initAuth_complete s) = clock s"
  "calls (initAuth_complete s) = calls s"
  by (simp_all add: initAuth_complete_def clearTimeout_def Let_def split: option.splits)

lemma run_task_sel [simp]:
  "user (run_task t s) = user s"
  "profile (run_task t s) = profile s"
  "loading (run_task t s) = (loading s \<and> t \<noteq> InitTimeout)"
  "error (run_task t s) = (if t = InitTimeout then Some timeoutMessage else error s)"
  "initialized (run_task t s) = initialized s"
  "timeoutId (run_task t s) = timeoutId s"
  "cleanupRegistered (run_task t s) = cleanupRegistered s"
  "listening (run_task t s) = listening s"
  "initPc (run_task t s) = initPc s"
  "pendingFetches (run_task t s) = pendingFetches s @ task_users t"
  "pendingRefreshes (run_task t s) = pendingRefreshes s"
  "pendingSignOuts (run_task t s) = pendingSignOuts s"
  "timers (run_task t s) = timers s"
  "nextHandle (run_task t s) = nextHandle s"
  "clock (run_task t s) = clock s"
  "calls (run_task t s) = calls s @ task_calls t"
  by (cases t; simp)+

lemma fold_run_task_sel [simp]:
  "user (fold run_task ts s) = user s"
  "profile (fold run_task ts s) = profile s"
  "loading (fold run_task ts s) = (loading s \<and> InitTimeout \<notin> set ts)"
  "error (fold run_task ts s) = (if InitTimeout \<in> set ts then Some timeoutMessage else error s)"
  "initialized (fold run_task ts s) = initialized s"
  "timeoutId (fold run_task ts s) = timeoutId s"
  "cleanupRegistered (fold run_task ts s) = cleanupRegistered s"
  "listening (fold run_task ts s) = listening s"
  "initPc (fold run_task ts s) = initPc s"
  "pendingFetches (fold run_task ts s) = pendingFetches s @ concat (map task_users ts)"
  "pendingRefreshes (fold run_task ts s) = pendingRefreshes s"
  "pendingSignOuts (fold run_task ts s) = pendingSignOuts s"
  "timers (fold run_task ts s) = timers s"
  "nextHandle (fold run_task ts s) = nextHandle s"
  "clock (fold run_task ts s) = clock s"
  "calls (fold run_task ts s) = calls s @ concat (map task_calls ts)"
  by (induction ts arbitrary: s; auto)+

lemma advance_sel [simp]:
  "user (advance d s) = user s"
  "profile (advance d s) = profile s"
  "loading (advance d s) = (loading s \<and> InitTimeout \<notin> set (due_tasks d s))"
  "error (advance d s) = (if InitTimeout \<in> set (due_tasks d s) then Some timeoutMessage else error s)"
  "initialized (advance d s) = initialized s"
  "timeoutId (advance d s) = timeoutId s"
  "cleanupRegistered (advance d s) = cleanupRegistered s"
  "listening (advance d s) = listening s"
  "initPc (advance d s) = initPc s"
  "pendingFetches (advance d s) = pendingFetches s @ concat (map task_users (due_tasks d s))"
  "pendingRefreshes (advance d s) = pendingRefreshes s"
  "pendingSignOuts (advance d s) = pendingSignOuts s"
  "timers (advance d s) = filter (\<lambda>t. \<not> fst (snd t) \<le> clock s + d) (timers s)"
  "nextHandle (advance d s) = nextHandle s"
  "clock (advance d s) = clock s + d"
  "calls (advance d s) = calls s @ concat (map task_calls (due_tasks d s))"
  by (simp_all add: advance_def due_tasks_def Let_def)

lemma task_calls_one:
  "filter (\<lambda>c. c = GetSession) (task_calls t) = []"
  "filter is_init_profile_call (task_calls t) = []"
  by (cases t; simp)+

lemma task_calls_not_init [simp]:
  "filter (\<lambda>c. c = GetSession) (concat (map task_calls ts)) = []"
  "filter is_init_profile_call (concat (map task_calls ts)) = []"
  by (induction ts; simp add: task_calls_one)+

lemma InitTimeout_due_iff:
  "InitTimeout \<in> set (due_tasks d s) \<longleftrightarrow>
     (\<exists>h t. (h, t, InitTimeout) \<in> set (timers s) \<and> t \<le> clock s + d)"
  by (force simp: due_tasks_def)

lemma init_once_step: "init_once s \<Longrightarrow> init_once (auth_step e s)"
  by (cases e)
     (auto simp: init_once_def sessionFetches_def initProfileFetches_def
        authEffect_def authEffect_cleanup_def initAuth_afterGetSession_def
        initAuth_afterFetchProfile_def onAuthStateChange_cb_def Let_def
        split: option.splits settled.splits)

lemma auth_run_snoc [simp]: "auth_run (evs @ [e]) s = auth_step e (auth_run evs s)"
  by (simp add: auth_run_def)

lemma auth_run_Nil [simp]: "auth_run [] s = s"
  by (simp add: auth_run_def)

lemma auth_run_Cons: "auth_run (e # evs) s = auth_run evs (auth_step e s)"
  by (simp add: auth_run_def)

lemma init_once_run: "init_once s \<Longrightarrow> init_once (auth_run evs s)"
  by (induction evs rule: rev_induct) (simp_all add: init_once_step)

lemma init_once_initial: "init_once initial_auth"
  by (simp add: init_once_def initial_auth_def sessionFetches_def initProfileFetches_def)

lemma initialized_step: "initialized s \<Longrightarrow> initialized (auth_step e s)"
  by (cases e)
     (auto simp: authEffect_def authEffect_cleanup_def initAuth_afterGetSession_def
        initAuth_afterFetchProfile_def onAuthStateChange_cb_def Let_def
        split: option.splits settled.splits)

lemma initialized_run: "initialized s \<Longrightarrow> initialized (auth_run evs s)"
  by (induction evs rule: rev_induct) (simp_all add: initialized_step)

lemma initialized_Mount: "initialized (authEffect s)"
  by (simp add: authEffect_def)

lemma Mount_initialized: "Mount \<in> set evs \<Longrightarrow> initialized (auth_run evs s)"
proof (induction evs rule: rev_induct)
  case Nil
  then show ?case by simp
next
  case (snoc e evs)
  show ?case
  proof (cases "e = Mount")
    case True
    then show ?thesis by (simp add: initialized_Mount)
  next
    case False
    with snoc have "initialized (auth_run evs s)" by simp
    then show ?thesis by (simp add: initialized_step)
  qed
qed

lemma clock_step: "clock (auth_step e s) = clock s + event_ms e"
  by (cases e)
     (auto simp: authEffect_def authEffect_cleanup_def initAuth_afterGetSession_def
        initAuth_afterFetchProfile_def onAuthStateChange_cb_def Let_def
        split: option.splits settled.splits)

lemma clock_run: "clock (auth_run evs s) = clock s + elapsed evs"
  by (induction evs rule: rev_induct) (simp_all add: clock_step elapsed_def)

lemma timer_inv_step: "timer_inv s \<Longrightarrow> timer_inv (auth_step e s)"
proof (cases e)
  case (Elapse d)
  assume "timer_inv s"
  then show ?thesis unfolding Elapse
    by (auto simp: timer_inv_def InitTimeout_due_iff)
qed (auto simp: timer_inv_def authEffect_def authEffect_cleanup_def initAuth_afterGetSession_def
        initAuth_afterFetchProfile_def onAuthStateChange_cb_def Let_def timeoutMessage_def
        split: option.splits settled.splits)

lemma timer_inv_run: "timer_inv s \<Longrightarrow> timer_inv (auth_run evs s)"
  by (induction evs rule: rev_induct) (simp_all add: timer_inv_step)

lemma timer_inv_initial: "timer_inv initial_auth"
  by (simp add: timer_inv_def initial_auth_def)

lemma await_inv_step: "await_inv s \<Longrightarrow> session_pending e \<Longrightarrow> await_inv (auth_step e s)"
  by (cases e)
     (auto simp: await_inv_def authEffect_def initAuth_afterFetchProfile_def
        onAuthStateChange_cb_def Let_def split: option.splits settled.splits)

lemma await_inv_run: "await_inv s \<Longrightarrow> list_all session_pending evs \<Longrightarrow> await_inv (auth_run evs s)"
  by (induction evs rule: rev_induct) (simp_all add: await_inv_step)

lemma await_inv_Mount: "await_inv (authEffect initial_auth)"
  by (simp add: await_inv_def authEffect_def initial_auth_def)

lemma quiet_tasks:
  "\<forall>t\<in>set (timers s). snd t = (30000, InitTimeout) \<Longrightarrow>
     concat (map task_users (due_tasks d s)) = []"
  by (auto simp: due_tasks_def)

lemma quiet_due:
  "\<forall>t\<in>set (timers s). snd t = (30000, InitTimeout) \<Longrightarrow> timers s \<noteq> [] \<Longrightarrow>
     InitTimeout \<in> set (due_tasks d s) \<longleftrightarrow> 30000 \<le> clock s + d"
proof
  assume "InitTimeout \<in> set (due_tasks d s)"
  then obtain h t where "(h, t, InitTimeout) \<in> set (timers s)" and le: "t \<le> clock s + d"
    by (auto simp: InitTimeout_due_iff)
  moreover assume "\<forall>t\<in>set (timers s). snd t = (30000, InitTimeout)"
  ultimately have "t = 30000" by fastforce
  with le show "30000 \<le> clock s + d" by simp
next
  assume all: "\<forall>t\<in>set (timers s). snd t = (30000, InitTimeout)" and "timers s \<noteq> []"
  then obtain x where x: "x \<in> set (timers s)" by (cases "timers s") auto
  with all have "x = (fst x, 30000, InitTimeout)" by (metis prod.collapse)
  with x have "(fst x, 30000, InitTimeout) \<in> set (timers s)" by simp
  moreover assume "30000 \<le> clock s + d"
  ultimately show "InitTimeout \<in> set (due_tasks d s)"
    unfolding InitTimeout_due_iff by blast
qed

lemma quiet_inv_step:
  "quiet_inv s \<Longrightarrow> session_pending e \<Longrightarrow> no_listener_event e \<Longrightarrow> quiet_inv (auth_step e s)"
proof (cases e)
  case (Elapse d)
  assume q: "quiet_inv s"
  show ?thesis
  proof (cases "clock s < 30000")
    case True
    with q have all: "\<forall>t\<in>set (timers s). snd t = (30000, InitTimeout)" and ne: "timers s \<noteq> []"
      by (simp_all add: quiet_inv_def)
    from q True show ?thesis unfolding Elapse
      by (auto simp: quiet_inv_def quiet_tasks [OF all] quiet_due [OF all ne] filter_empty_conv)
  next
    case False
    with q have all: "\<forall>t\<in>set (timers s). snd t = (30000, InitTimeout)"
      by (simp_all add: quiet_inv_def)
    from q False show ?thesis unfolding Elapse
      by (auto simp: quiet_inv_def quiet_tasks [OF all])
  qed
qed (auto simp: quiet_inv_def authEffect_def initAuth_afterFetchProfile_def
        Let_def split: option.splits settled.splits)

lemma quiet_inv_run:
  "quiet_inv s \<Longrightarrow> list_all session_pending evs \<Longrightarrow> list_all no_listener_event evs \<Longrightarrow>
     quiet_inv (auth_run evs s)"
  by (induction evs rule: rev_induct) (simp_all add: quiet_inv_step)

lemma quiet_inv_Mount: "quiet_inv (authEffect initial_auth)"
  by (simp add: quiet_inv_def authEffect_def initial_auth_def)

lemma disarmed_inv_step: "disarmed_inv s \<Longrightarrow> disarmed_inv (auth_step e s)"
proof -
  assume f: "disarmed_inv s"
  then have t: "timer_inv (auth_step e s)"
    by (simp add: disarmed_inv_def timer_inv_step)
  from f have none: "\<forall>t\<in>set (timers s). snd (snd t) \<noteq> InitTimeout"
    by (simp add: disarmed_inv_def)
  have "initialized (auth_step e s) \<and>
      (\<forall>t\<in>set (timers (auth_step e s)). snd (snd t) \<noteq> InitTimeout) \<and>
      error (auth_step e s) \<noteq> Some timeoutMessage"
  proof (cases e)
    case (Elapse d)
    from none have "InitTimeout \<notin> set (due_tasks d s)"
      by (auto simp: InitTimeout_due_iff)
    with f show ?thesis unfolding Elapse by (simp add: disarmed_inv_def)
  qed (use f in \<open>auto simp: disarmed_inv_def authEffect_def authEffect_cleanup_def
        initAuth_afterGetSession_def initAuth_afterFetchProfile_def
        onAuthStateChange_cb_def Let_def timeoutMessage_def split: option.splits settled.splits\<close>)
  with t show ?thesis by (simp add: disarmed_inv_def)
qed

lemma disarmed_inv_run: "disarmed_inv s \<Longrightarrow> disarmed_inv (auth_run evs s)"
  by (induction evs rule: rev_induct) (simp_all add: disarmed_inv_step)

lemma disarmed_Elapse:
  "disarmed_inv s \<Longrightarrow>
     user (auth_step (Elapse d) s) = user s \<and> profile (auth_step (Elapse d) s) = profile s \<and>
     loading (auth_step (Elapse d) s) = loading s \<and> error (auth_step (Elapse d) s) = error s"
  by (auto simp: disarmed_inv_def InitTimeout_due_iff)

lemma not_loading_step: "\<not> loading s \<Longrightarrow> \<not> loading (auth_step e s)"
  by (cases e)
     (auto simp: authEffect_def authEffect_cleanup_def initAuth_afterGetSession_def
        initAuth_afterFetchProfile_def onAuthStateChange_cb_def Let_def
        split: option.splits settled.splits)

lemma not_loading_run: "\<not> loading s \<Longrightarrow> \<not> loading (auth_run evs s)"
  by (induction evs rule: rev_induct) (simp_all add: not_loading_step)

lemma await_session_step:
  "initialized s \<and> initPc s = AwaitGetSession \<Longrightarrow> session_unsettled e \<Longrightarrow>
     initialized (auth_step e s) \<and> initPc (auth_step e s) = AwaitGetSession"
  by (cases e)
     (auto simp: authEffect_def authEffect_cleanup_def initAuth_afterFetchProfile_def
        onAuthStateChange_cb_def Let_def split: option.splits settled.splits)

lemma await_session_run:
  "initialized s \<and> initPc s = AwaitGetSession \<Longrightarrow> list_all session_unsettled evs \<Longrightarrow>
     initialized (auth_run evs s) \<and> initPc (auth_run evs s) = AwaitGetSession"
  by (induction evs rule: rev_induct) (simp_all add: await_session_step)

lemma await_profile_step:
  "initialized s \<and> initPc s = AwaitFetchProfile \<Longrightarrow> profile_unsettled e \<Longrightarrow>
     initialized (auth_step e s) \<and> initPc (auth_step e s) = AwaitFetchProfile"
  by (cases e)
     (auto simp: authEffect_def authEffect_cleanup_def initAuth_afterGetSession_def
        onAuthStateChange_cb_def Let_def split: option.splits settled.splits)

lemma await_profile_run:
  "initialized s \<and> initPc s = AwaitFetchProfile \<Longrightarrow> list_all profile_unsettled evs \<Longrightarrow>
     initialized (auth_run evs s) \<and> initPc (auth_run evs s) = AwaitFetchProfile"
  by (induction evs rule: rev_induct) (simp_all add: await_profile_step)

lemma await_session_Mount:
  "initialized (authEffect initial_auth) \<and> initPc (authEffect initial_auth) = AwaitGetSession"
  by (simp add: authEffect_def initial_auth_def)

text \<open>
  Once \<^verbatim>\<open>initAuth\<close> has run to its end before the clock reaches 30000, or the cleanup
  of the effect has run before then, the timer is gone and has not fired.
\<close>

lemma finished_disarmed:
  assumes "timer_inv s" and "initPc s = InitFinished" and "clock s < 30000"
  shows "disarmed_inv s"
  using assms by (auto simp: disarmed_inv_def timer_inv_def)

lemma cleaned_disarmed:
  assumes "timer_inv s" and "initialized s" and "\<not> cleanupRegistered s" and "clock s < 30000"
  shows "disarmed_inv s"
  using assms by (auto simp: disarmed_inv_def timer_inv_def)

lemma settle_without_profile:
  "initPc s = AwaitGetSession \<Longrightarrow> \<not> needs_profile r \<Longrightarrow>
     initPc (auth_step (GetSessionSettled r) s) = InitFinished \<and>
     \<not> loading (auth_step (GetSessionSettled r) s)"
  by (cases r rule: needs_profile.cases)
     (auto simp: initAuth_afterGetSession_def split: option.splits)

lemma settle_with_profile:
  "initialized s \<and> initPc s = AwaitGetSession \<Longrightarrow> needs_profile r \<Longrightarrow>
     initialized (auth_step (GetSessionSettled r) s) \<and>
     initPc (auth_step (GetSessionSettled r) s) = AwaitFetchProfile"
  by (cases r rule: needs_profile.cases)
     (auto simp: initAuth_afterGetSession_def)

lemma settle_profile:
  "initPc s = AwaitFetchProfile \<Longrightarrow>
     initPc (auth_step (InitProfileSettled pr) s) = InitFinished \<and>
     \<not> loading (auth_step (InitProfileSettled pr) s)"
  by (simp add: initAuth_afterFetchProfile_def)

lemma cleanup_unregisters:
  "\<not> cleanupRegistered (auth_step Cleanup s) \<and>
   initialized (auth_step Cleanup s) = initialized s"
  by (simp add: authEffect_cleanup_def)

lemma auth_run_append: "auth_run (evs @ evs') s = auth_run evs' (auth_run evs s)"
  by (simp add: auth_run_def)

lemma elapsed_simps [simp]:
  "elapsed [] = 0"
  "elapsed (e # evs) = event_ms e + elapsed evs"
  by (simp_all add: elapsed_def)

lemma listening_initialized_step:
  "(listening s \<longrightarrow> initialized s) \<Longrightarrow> listening (auth_step e s) \<longrightarrow> initialized (auth_step e s)"
  by (cases e)
     (auto simp: authEffect_def authEffect_cleanup_def initAuth_afterGetSession_def
        initAuth_afterFetchProfile_def onAuthStateChange_cb_def Let_def
        split: option.splits settled.splits)

lemma listener_guard_always_true:
  "listening (auth_run evs initial_auth) \<longrightarrow> initialized (auth_run evs initial_auth)"
proof (induction evs rule: rev_induct)
  case Nil
  show ?case by (simp add: initial_auth_def)
next
  case (snoc e evs)
  then show ?case by (simp add: listening_initialized_step)
qed

text \<open>
  The cleanup of the effect clears the timer and removes the listener, and the guard on
  the ref keeps a later run of the effect from setting them up again. This is the run
  of React's strict mode in development: mount, cleanup, mount.
\<close>

lemma remount_after_cleanup_is_idle:
  "timers (auth_run [Mount, Cleanup, Mount] initial_auth) = [] \<and>
   \<not> listening (auth_run [Mount, Cleanup, Mount] initial_auth) \<and>
   initPc (auth_run [Mount, Cleanup, Mount] initial_auth) = AwaitGetSession"
  by (simp add: auth_run_Cons authEffect_def authEffect_cleanup_def initial_auth_def)



section \<open>Claims on the session store\<close>

text \<open>
  C2. The claim: the listener sets \<open>loading\<close> to false only once the one-time
  initialization sequence has completed; an event that arrives while initialization is in
  progress never forces \<open>loading\<close> to false. The listener guards the setter with the ref
  \<open>initialized\<close>, but the effect sets that ref before it registers the listener and before
  \<open>initAuth\<close> starts, so the guard holds at every event (\<open>listener_guard_always_true\<close>).
  Evaluated on the provider: right after the mount, with \<open>initAuth\<close> still awaiting the
  session fetch, \<open>loading\<close> is true; one listener event later it is false, and
  \<open>initAuth\<close> is still awaiting the session fetch.
\<close>

theorem listener_clears_loading_during_init:
  "loading (auth_run [Mount] initial_auth) \<and>
   initPc (auth_run [Mount] initial_auth) = AwaitGetSession \<and>
   initPc (auth_run [Mount, AuthStateChange INITIAL_SESSION None] initial_auth) = AwaitGetSession \<and>
   \<not> loading (auth_run [Mount, AuthStateChange INITIAL_SESSION None] initial_auth)"
  by (simp add: auth_run_Cons authEffect_def onAuthStateChange_cb_def initial_auth_def)

text \<open>
  C3. Running the effect again once the ref \<open>initialized\<close> is set changes nothing, so
  it issues no network step. Over every run of events from the initial state the
  session fetch is issued at most once, the profile resolution of the initialization
  sequence at most once, and exactly one session fetch has been issued as soon as the
  effect has run.
\<close>

theorem initialization_runs_once:
  "(initialized s \<longrightarrow> auth_step Mount s = s) \<and>
   sessionFetches (auth_run evs initial_auth) \<le> 1 \<and>
   initProfileFetches (auth_run evs initial_auth) \<le> 1 \<and>
   (Mount \<in> set evs \<longrightarrow> sessionFetches (auth_run evs initial_auth) = 1)"
proof -
  have inv: "init_once (auth_run evs initial_auth)"
    by (rule init_once_run [OF init_once_initial])
  have a: "initialized s \<longrightarrow> auth_step Mount s = s"
    by (simp add: authEffect_def)
  have b: "sessionFetches (auth_run evs initial_auth) \<le> 1"
    using inv by (simp add: init_once_def)
  have c: "initProfileFetches (auth_run evs initial_auth) \<le> 1"
    using inv by (simp add: init_once_def)
  have d: "Mount \<in> set evs \<longrightarrow> sessionFetches (auth_run evs initial_auth) = 1"
    using inv Mount_initialized [of evs initial_auth] by (auto simp: init_once_def)
  from a b c d show ?thesis by blast
qed

theorem initialization_runs_once_witness:
  "initialized (auth_run [Mount] initial_auth) \<and>
   auth_step Mount (auth_run [Mount] initial_auth) = auth_run [Mount] initial_auth \<and>
   sessionFetches (auth_run [Mount, Mount, Mount] initial_auth) = 1 \<and>
   initProfileFetches (auth_run [Mount, Mount, Mount] initial_auth) \<le> 1"
  using initialization_runs_once [of "auth_run [Mount] initial_auth" "[Mount, Mount, Mount]"]
  by (simp add: auth_run_Cons authEffect_def initial_auth_def sessionFetches_def
      initProfileFetches_def)

text \<open>
  C4. The claim: if the session fetch never resolves, \<open>error\<close> becomes the timed-out
  message and \<open>loading\<close> false at 30 seconds. It fails when the cleanup of the effect has
  run: the cleanup clears the timer, and a later run of the effect returns at the guard
  on the ref without setting the timer again. With the effect run, cleaned up and run
  again (what React's strict mode of main.tsx does in development), the session fetch
  pending and 30 seconds gone, \<open>loading\<close> is still true and \<open>error\<close> is still unset.
\<close>

theorem remount_never_times_out:
  "loading (auth_run [Mount, Cleanup, Mount, Elapse 30000] initial_auth) \<and>
   error (auth_run [Mount, Cleanup, Mount, Elapse 30000] initial_auth) = None \<and>
   initPc (auth_run [Mount, Cleanup, Mount, Elapse 30000] initial_auth) = AwaitGetSession \<and>
   clock (auth_run [Mount, Cleanup, Mount, Elapse 30000] initial_auth) = 30000"
  by (simp add: auth_run_Cons authEffect_def authEffect_cleanup_def initial_auth_def
      due_tasks_def)

text \<open>
  C4, amended. Time is the clock of the timer queue, in milliseconds; the effect runs at
  time 0. First conjunct: while the session fetch stays pending, the cleanup of the
  effect has not run and no listener event arrives, \<open>loading\<close> is true and \<open>error\<close> is
  unset at every time before 30000, and from 30000 on \<open>loading\<close> is false and \<open>error\<close> is
  the timed-out message. Second conjunct: the same run with listener events allowed;
  \<open>error\<close> is not the timed-out message before 30000, and the step that takes the clock
  to 30000 or beyond sets \<open>error\<close> to the timed-out message and \<open>loading\<close> to false.
  Third and fourth conjunct: when the session fetch settles before 30000 with a
  rejection, an error or no session, or settles with a session and the profile
  resolution settles before 30000, then from that event on, whatever follows,
  \<open>loading\<close> is false, \<open>error\<close> is not the timed-out message, and the passing of time
  changes none of \<open>user\<close>, \<open>profile\<close>, \<open>loading\<close> and \<open>error\<close>. Fifth conjunct: when the
  cleanup of the effect runs before 30000, then from that event on \<open>error\<close> is not the
  timed-out message and the passing of time changes none of the four.
\<close>

theorem init_timeout_while_mounted:
  "(list_all session_pending evs \<and> list_all no_listener_event evs \<longrightarrow>
      (let s = auth_run (Mount # evs) initial_auth
       in if elapsed evs < 30000 then loading s \<and> error s = None
          else \<not> loading s \<and> error s = Some timeoutMessage)) \<and>
   (list_all session_pending evs \<and> elapsed evs < 30000 \<and> 30000 \<le> elapsed evs + d \<longrightarrow>
      (let s = auth_run (Mount # evs) initial_auth
       in error s \<noteq> Some timeoutMessage \<and>
          error (auth_step (Elapse d) s) = Some timeoutMessage \<and>
          \<not> loading (auth_step (Elapse d) s))) \<and>
   (list_all session_unsettled pre \<and> elapsed pre < 30000 \<and> \<not> needs_profile r \<longrightarrow>
      (let s = auth_run (Mount # pre @ GetSessionSettled r # post) initial_auth
       in \<not> loading s \<and> error s \<noteq> Some timeoutMessage \<and>
          user (auth_step (Elapse d) s) = user s \<and>
          profile (auth_step (Elapse d) s) = profile s \<and>
          loading (auth_step (Elapse d) s) = loading s \<and>
          error (auth_step (Elapse d) s) = error s)) \<and>
   (list_all session_unsettled pre \<and> needs_profile r \<and> list_all profile_unsettled mid \<and>
    elapsed (pre @ mid) < 30000 \<longrightarrow>
      (let s = auth_run (Mount # pre @ GetSessionSettled r # mid @ InitProfileSettled pr # post)
                 initial_auth
       in \<not> loading s \<and> error s \<noteq> Some timeoutMessage \<and>
          user (auth_step (Elapse d) s) = user s \<and>
          profile (auth_step (Elapse d) s) = profile s \<and>
          loading (auth_step (Elapse d) s) = loading s \<and>
          error (auth_step (Elapse d) s) = error s)) \<and>
   (elapsed pre < 30000 \<longrightarrow>
      (let s = auth_run (Mount # pre @ Cleanup # post) initial_auth
       in error s \<noteq> Some timeoutMessage \<and>
          user (auth_step (Elapse d) s) = user s \<and>
          profile (auth_step (Elapse d) s) = profile s \<and>
          loading (auth_step (Elapse d) s) = loading s \<and>
          error (auth_step (Elapse d) s) = error s))"
proof (intro conjI impI)
  assume "list_all session_pending evs \<and> list_all no_listener_event evs"
  then have q: "quiet_inv (auth_run (Mount # evs) initial_auth)"
    by (simp add: auth_run_Cons quiet_inv_run [OF quiet_inv_Mount])
  have "clock (auth_run (Mount # evs) initial_auth) = elapsed evs"
    by (simp add: clock_run initial_auth_def)
  with q show "let s = auth_run (Mount # evs) initial_auth
       in if elapsed evs < 30000 then loading s \<and> error s = None
          else \<not> loading s \<and> error s = Some timeoutMessage"
    by (simp add: quiet_inv_def Let_def)
next
  assume a: "list_all session_pending evs \<and> elapsed evs < 30000 \<and> 30000 \<le> elapsed evs + d"
  define s where "s = auth_run (Mount # evs) initial_auth"
  have c: "clock s = elapsed evs"
    by (simp add: s_def clock_run initial_auth_def)
  from a have "await_inv s"
    by (simp add: s_def auth_run_Cons await_inv_run [OF await_inv_Mount])
  with a c obtain h where "(h, 30000, InitTimeout) \<in> set (timers s)"
    by (auto simp: await_inv_def)
  with a c have due: "InitTimeout \<in> set (due_tasks d s)"
    unfolding InitTimeout_due_iff by auto
  have "timer_inv s"
    unfolding s_def by (rule timer_inv_run [OF timer_inv_initial])
  with a c have "error s \<noteq> Some timeoutMessage"
    by (auto simp: timer_inv_def)
  with due show "let s = auth_run (Mount # evs) initial_auth
       in error s \<noteq> Some timeoutMessage \<and>
          error (auth_step (Elapse d) s) = Some timeoutMessage \<and>
          \<not> loading (auth_step (Elapse d) s)"
    by (simp add: s_def [symmetric])
next
  assume a: "list_all session_unsettled pre \<and> elapsed pre < 30000 \<and> \<not> needs_profile r"
  define p where "p = auth_run (Mount # pre) initial_auth"
  define c where "c = auth_step (GetSessionSettled r) p"
  define s where "s = auth_run (Mount # pre @ GetSessionSettled r # post) initial_auth"
  have s: "s = auth_run post c"
    by (simp add: s_def c_def p_def auth_run_def)
  from a have "initialized p \<and> initPc p = AwaitGetSession"
    by (simp add: p_def auth_run_Cons await_session_run [OF await_session_Mount])
  with a settle_without_profile [of p r]
  have fin: "initPc c = InitFinished" and nl: "\<not> loading c"
    unfolding c_def by blast+
  have t: "timer_inv c"
    unfolding c_def p_def by (intro timer_inv_step timer_inv_run timer_inv_initial)
  have "clock c = elapsed pre"
    unfolding c_def p_def clock_step clock_run by (simp add: initial_auth_def)
  with a t fin have "disarmed_inv c"
    by (intro finished_disarmed) simp_all
  then have dis: "disarmed_inv s"
    unfolding s by (rule disarmed_inv_run)
  from nl have "\<not> loading s"
    unfolding s by (rule not_loading_run)
  with dis disarmed_Elapse [OF dis, of d]
  show "let s = auth_run (Mount # pre @ GetSessionSettled r # post) initial_auth
       in \<not> loading s \<and> error s \<noteq> Some timeoutMessage \<and>
          user (auth_step (Elapse d) s) = user s \<and>
          profile (auth_step (Elapse d) s) = profile s \<and>
          loading (auth_step (Elapse d) s) = loading s \<and>
          error (auth_step (Elapse d) s) = error s"
    unfolding s_def [symmetric] Let_def by (simp add: disarmed_inv_def)
next
  assume a: "list_all session_unsettled pre \<and> needs_profile r \<and> list_all profile_unsettled mid \<and>
    elapsed (pre @ mid) < 30000"
  define p where "p = auth_run (Mount # pre) initial_auth"
  define m where "m = auth_run mid (auth_step (GetSessionSettled r) p)"
  define c where "c = auth_step (InitProfileSettled pr) m"
  define s where "s = auth_run (Mount # pre @ GetSessionSettled r # mid @ InitProfileSettled pr # post)
                 initial_auth"
  have s: "s = auth_run post c"
    by (simp add: s_def c_def m_def p_def auth_run_def)
  from a have "initialized p \<and> initPc p = AwaitGetSession"
    by (simp add: p_def auth_run_Cons await_session_run [OF await_session_Mount])
  with a settle_with_profile [of p r]
  have "initialized (auth_step (GetSessionSettled r) p) \<and>
      initPc (auth_step (GetSessionSettled r) p) = AwaitFetchProfile"
    by blast
  with a await_profile_run [of "auth_step (GetSessionSettled r) p" mid]
  have "initPc m = AwaitFetchProfile"
    unfolding m_def by blast
  with settle_profile [of m pr]
  have fin: "initPc c = InitFinished" and nl: "\<not> loading c"
    unfolding c_def by blast+
  have t: "timer_inv c"
    unfolding c_def m_def p_def by (intro timer_inv_step timer_inv_run timer_inv_initial)
  have "clock c = elapsed (pre @ mid)"
    unfolding c_def m_def p_def clock_step clock_run by (simp add: initial_auth_def elapsed_def)
  with a t fin have "disarmed_inv c"
    by (intro finished_disarmed) simp_all
  then have dis: "disarmed_inv s"
    unfolding s by (rule disarmed_inv_run)
  from nl have "\<not> loading s"
    unfolding s by (rule not_loading_run)
  with dis disarmed_Elapse [OF dis, of d]
  show "let s = auth_run (Mount # pre @ GetSessionSettled r # mid @ InitProfileSettled pr # post)
                 initial_auth
       in \<not> loading s \<and> error s \<noteq> Some timeoutMessage \<and>
          user (auth_step (Elapse d) s) = user s \<and>
          profile (auth_step (Elapse d) s) = profile s \<and>
          loading (auth_step (Elapse d) s) = loading s \<and>
          error (auth_step (Elapse d) s) = error s"
    unfolding s_def [symmetric] Let_def by (simp add: disarmed_inv_def)
next
  assume a: "elapsed pre < 30000"
  define p where "p = auth_run (Mount # pre) initial_auth"
  define c where "c = auth_step Cleanup p"
  define s where "s = auth_run (Mount # pre @ Cleanup # post) initial_auth"
  have s: "s = auth_run post c"
    by (simp add: s_def c_def p_def auth_run_def)
  have "initialized p"
    unfolding p_def by (rule Mount_initialized) simp
  with cleanup_unregisters [of p]
  have i: "initialized c" and u: "\<not> cleanupRegistered c"
    unfolding c_def by blast+
  have t: "timer_inv c"
    unfolding c_def p_def by (intro timer_inv_step timer_inv_run timer_inv_initial)
  have "clock c = elapsed pre"
    unfolding c_def p_def clock_step clock_run by (simp add: initial_auth_def)
  with a t i u have "disarmed_inv c"
    by (intro cleaned_disarmed) simp_all
  then have dis: "disarmed_inv s"
    unfolding s by (rule disarmed_inv_run)
  with disarmed_Elapse [OF dis, of d]
  show "let s = auth_run (Mount # pre @ Cleanup # post) initial_auth
       in error s \<noteq> Some timeoutMessage \<and>
          user (auth_step (Elapse d) s) = user s \<and>
          profile (auth_step (Elapse d) s) = profile s \<and>
          loading (auth_step (Elapse d) s) = loading s \<and>
          error (auth_step (Elapse d) s) = error s"
    unfolding s_def [symmetric] Let_def by (simp add: disarmed_inv_def)
qed

theorem init_timeout_while_mounted_witness:
  "loading (auth_run [Mount, Elapse 29999] initial_auth) \<and>
   error (auth_run [Mount, Elapse 29999] initial_auth) = None \<and>
   \<not> loading (auth_run [Mount, Elapse 30000] initial_auth) \<and>
   error (auth_run [Mount, Elapse 30000] initial_auth) = Some timeoutMessage \<and>
   error (auth_step (Elapse 1)
     (auth_run [Mount, AuthStateChange SIGNED_OUT None, Elapse 29999] initial_auth)) =
     Some timeoutMessage \<and>
   \<not> loading (auth_run (Mount # [Elapse 100] @ GetSessionSettled (Fulfilled (None, None)) #
     [Elapse 40000]) initial_auth) \<and>
   error (auth_run (Mount # [Elapse 100] @ GetSessionSettled (Fulfilled (None, None)) #
     [Elapse 40000]) initial_auth) \<noteq> Some timeoutMessage \<and>
   \<not> loading (auth_run (Mount # [Elapse 100] @
     GetSessionSettled (Fulfilled (Some \<lparr>session_user = ex_user\<rparr>, None)) # [Elapse 200] @
     InitProfileSettled (Fulfilled (Some ex_profile)) # [Elapse 40000]) initial_auth) \<and>
   error (auth_run (Mount # [Elapse 100] @
     GetSessionSettled (Fulfilled (Some \<lparr>session_user = ex_user\<rparr>, None)) # [Elapse 200] @
     InitProfileSettled (Fulfilled (Some ex_profile)) # [Elapse 40000]) initial_auth) \<noteq>
     Some timeoutMessage \<and>
   profile (auth_run (Mount # [Elapse 100] @
     GetSessionSettled (Fulfilled (Some \<lparr>session_user = ex_user\<rparr>, None)) # [Elapse 200] @
     InitProfileSettled (Fulfilled (Some ex_profile)) # [Elapse 40000]) initial_auth) =
     Some ex_profile \<and>
   error (auth_run (Mount # [Elapse 100] @ Cleanup # [Mount, Elapse 40000]) initial_auth) \<noteq>
     Some timeoutMessage"
proof -
  have a: "loading (auth_run [Mount, Elapse 29999] initial_auth) \<and>
      error (auth_run [Mount, Elapse 29999] initial_auth) = None"
    using init_timeout_while_mounted [of "[Elapse 29999]" 0 "[]" "Rejected []" "[]" "[]"]
    by (simp add: Let_def)
  have b: "\<not> loading (auth_run [Mount, Elapse 30000] initial_auth) \<and>
      error (auth_run [Mount, Elapse 30000] initial_auth) = Some timeoutMessage"
    using init_timeout_while_mounted [of "[Elapse 30000]" 0 "[]" "Rejected []" "[]" "[]"]
    by (simp add: Let_def)
  have c: "error (auth_step (Elapse 1)
      (auth_run [Mount, AuthStateChange SIGNED_OUT None, Elapse 29999] initial_auth)) =
      Some timeoutMessage"
    using init_timeout_while_mounted
      [of "[AuthStateChange SIGNED_OUT None, Elapse 29999]" 1 "[]" "Rejected []" "[]" "[]"]
    by (simp add: Let_def)
  have d: "\<not> loading (auth_run (Mount # [Elapse 100] @ GetSessionSettled (Fulfilled (None, None)) #
        [Elapse 40000]) initial_auth) \<and>
      error (auth_run (Mount # [Elapse 100] @ GetSessionSettled (Fulfilled (None, None)) #
        [Elapse 40000]) initial_auth) \<noteq> Some timeoutMessage"
    using init_timeout_while_mounted
      [of "[]" 0 "[Elapse 100]" "Fulfilled (None, None)" "[Elapse 40000]" "[]"]
    by (simp add: Let_def)
  have e: "\<not> loading (auth_run (Mount # [Elapse 100] @
        GetSessionSettled (Fulfilled (Some \<lparr>session_user = ex_user\<rparr>, None)) # [Elapse 200] @
        InitProfileSettled (Fulfilled (Some ex_profile)) # [Elapse 40000]) initial_auth) \<and>
      error (auth_run (Mount # [Elapse 100] @
        GetSessionSettled (Fulfilled (Some \<lparr>session_user = ex_user\<rparr>, None)) # [Elapse 200] @
        InitProfileSettled (Fulfilled (Some ex_profile)) # [Elapse 40000]) initial_auth) \<noteq>
        Some timeoutMessage"
    using init_timeout_while_mounted
      [of "[]" 0 "[Elapse 100]" "Fulfilled (Some \<lparr>session_user = ex_user\<rparr>, None)"
        "[Elapse 40000]" "[Elapse 200]" "Fulfilled (Some ex_profile)"]
    by (simp add: Let_def)
  have f: "profile (auth_run (Mount # [Elapse 100] @
        GetSessionSettled (Fulfilled (Some \<lparr>session_user = ex_user\<rparr>, None)) # [Elapse 200] @
        InitProfileSettled (Fulfilled (Some ex_profile)) # [Elapse 40000]) initial_auth) =
        Some ex_profile"
    by (simp add: auth_run_Cons authEffect_def initAuth_afterGetSession_def
        initAuth_afterFetchProfile_def initial_auth_def)
  have g: "error (auth_run (Mount # [Elapse 100] @ Cleanup # [Mount, Elapse 40000]) initial_auth) \<noteq>
      Some timeoutMessage"
    using init_timeout_while_mounted [of "[]" 0 "[Elapse 100]" "Rejected []" "[Mount, Elapse 40000]" "[]"]
    by (simp add: Let_def)
  from a b c d e f g show ?thesis by simp
qed

text \<open>
  C9. The claim: after \<open>signOut()\<close> the identity and the profile are both null, whatever
  the outcome of the external sign-out. It fails when the external call rejects: a
  signed-in provider whose sign-out call rejects keeps its identity and its profile.
\<close>

theorem signOut_rejected_keeps_identity:
  "user (auth_run
     [Mount,
      GetSessionSettled (Fulfilled (Some \<lparr>session_user = \<lparr>user_id = ''u1'', email = ''a@b.c''\<rparr>\<rparr>, None)),
      InitProfileSettled (Fulfilled (Some \<lparr>profile_id = ''u1'', username = ''a'',
        full_name = ''A'', avatar_url = None\<rparr>)),
      SignOut,
      SignOutSettled (Rejected ''network error'')] initial_auth) \<noteq> None \<and>
   profile (auth_run
     [Mount,
      GetSessionSettled (Fulfilled (Some \<lparr>session_user = \<lparr>user_id = ''u1'', email = ''a@b.c''\<rparr>\<rparr>, None)),
      InitProfileSettled (Fulfilled (Some \<lparr>profile_id = ''u1'', username = ''a'',
        full_name = ''A'', avatar_url = None\<rparr>)),
      SignOut,
      SignOutSettled (Rejected ''network error'')] initial_auth) \<noteq> None"
  by (simp add: auth_run_Cons authEffect_def initAuth_afterGetSession_def
      initAuth_afterFetchProfile_def initial_auth_def)

text \<open>
  C9, amended. When the external sign-out call fulfils, with whatever value, \<open>signOut\<close>
  sets the identity and the profile to null; when it rejects, \<open>signOut\<close> rejects as well
  and leaves the state as it was.
\<close>

theorem signOut_clears_identity_when_fulfilled:
  "user (signOut_resume (Fulfilled v) s) = None \<and>
   profile (signOut_resume (Fulfilled v) s) = None \<and>
   signOut_resume (Rejected m) s = s"
  by (simp add: signOut_resume_def)


section \<open>Properties of the room view\<close>

lemma loadRoomData_call_frame [simp]:
  "roomId (loadRoomData_call s) = roomId s"
  "rp_user (loadRoomData_call s) = rp_user s"
  "room (loadRoomData_call s) = room s"
  "members (loadRoomData_call s) = members s"
  "messages (loadRoomData_call s) = messages s"
  "newMessage (loadRoomData_call s) = newMessage s"
  "isMember (loadRoomData_call s) = isMember s"
  "sendingMessage (loadRoomData_call s) = sendingMessage s"
  "uploadingFile (loadRoomData_call s) = uploadingFile s"
  "mounted (loadRoomData_call s) = mounted s"
  "channels (loadRoomData_call s) = channels s"
  "channelLog (loadRoomData_call s) = channelLog s"
  "effectDeps (loadRoomData_call s) = effectDeps s"
  "effectCleanup (loadRoomData_call s) = effectCleanup s"
  "pendingLookups (loadRoomData_call s) = pendingLookups s"
  "pendingRefetches (loadRoomData_call s) = pendingRefetches s"
  "pendingUploads (loadRoomData_call s) = pendingUploads s"
  "pendingJoins (loadRoomData_call s) = pendingJoins s"
  "pendingLeaves (loadRoomData_call s) = pendingLeaves s"
  "sendsInFlight (loadRoomData_call s) = sendsInFlight s"
  "sendLog (loadRoomData_call s) = sendLog s"
  "toasts (loadRoomData_call s) = toasts s"
  "navigations (loadRoomData_call s) = navigations s"
  by (simp_all add: loadRoomData_call_def split: option.splits)

lemma loadRoomData_resume_frame [simp]:
  "roomId (loadRoomData_resume r1 r2 r3 r4 s) = roomId s"
  "rp_user (loadRoomData_resume r1 r2 r3 r4 s) = rp_user s"
  "newMessage (loadRoomData_resume r1 r2 r3 r4 s) = newMessage s"
  "sendingMessage (loadRoomData_resume r1 r2 r3 r4 s) = sendingMessage s"
  "uploadingFile (loadRoomData_resume r1 r2 r3 r4 s) = uploadingFile s"
  "mounted (loadRoomData_resume r1 r2 r3 r4 s) = mounted s"
  "channels (loadRoomData_resume r1 r2 r3 r4 s) = channels s"
  "channelLog (loadRoomData_resume r1 r2 r3 r4 s) = channelLog s"
  "effectDeps (loadRoomData_resume r1 r2 r3 r4 s) = effectDeps s"
  "effectCleanup (loadRoomData_resume r1 r2 r3 r4 s) = effectCleanup s"
  "pendingLoads (loadRoomData_resume r1 r2 r3 r4 s) = pendingLoads s"
  "pendingLookups (loadRoomData_resume r1 r2 r3 r4 s) = pendingLookups s"
  "pendingRefetches (loadRoomData_resume r1 r2 r3 r4 s) = pendingRefetches s"
  "pendingUploads (loadRoomData_resume r1 r2 r3 r4 s) = pendingUploads s"
  "pendingJoins (loadRoomData_resume r1 r2 r3 r4 s) = pendingJoins s"
  "pendingLeaves (loadRoomData_resume r1 r2 r3 r4 s) = pendingLeaves s"
  "sendsInFlight (loadRoomData_resume r1 r2 r3 r4 s) = sendsInFlight s"
  "sendLog (loadRoomData_resume r1 r2 r3 r4 s) = sendLog s"
  "roomCalls (loadRoomData_resume r1 r2 r3 r4 s) = roomCalls s"
  by (simp_all add: loadRoomData_resume_def split: settled.splits option.splits)

lemma subscribe_frame [simp]:
  "roomId (subscribe name s) = roomId s"
  "rp_user (subscribe name s) = rp_user s"
  "room (subscribe name s) = room s"
  "members (subscribe name s) = members s"
  "messages (subscribe name s) = messages s"
  "newMessage (subscribe name s) = newMessage s"
  "isMember (subscribe name s) = isMember s"
  "rp_loading (subscribe name s) = rp_loading s"
  "sendingMessage (subscribe name s) = sendingMessage s"
  "uploadingFile (subscribe name s) = uploadingFile s"
  "mounted (subscribe name s) = mounted s"
  "effectDeps (subscribe name s) = effectDeps s"
  "effectCleanup (subscribe name s) = effectCleanup s"
  "pendingLoads (subscribe name s) = pendingLoads s"
  "pendingLookups (subscribe name s) = pendingLookups s"
  "pendingRefetches (subscribe name s) = pendingRefetches s"
  "pendingUploads (subscribe name s) = pendingUploads s"
  "pendingJoins (subscribe name s) = pendingJoins s"
  "pendingLeaves (subscribe name s) = pendingLeaves s"
  "sendsInFlight (subscribe name s) = sendsInFlight s"
  "sendLog (subscribe name s) = sendLog s"
  "roomCalls (subscribe name s) = roomCalls s"
  "toasts (subscribe name s) = toasts s"
  "navigations (subscribe name s) = navigations s"
  by (simp_all add: subscribe_def )

lemma removeChannel_frame [simp]:
  "roomId (removeChannel name s) = roomId s"
  "rp_user (removeChannel name s) = rp_user s"
  "room (removeChannel name s) = room s"
  "members (removeChannel name s) = members s"
  "messages (removeChannel name s) = messages s"
  "newMessage (removeChannel name s) = newMessage s"
  "isMember (removeChannel name s) = isMember s"
  "rp_loading (removeChannel name s) = rp_loading s"
  "sendingMessage (removeChannel name s) = sendingMessage s"
  "uploadingFile (removeChannel name s) = uploadingFile s"
  "mounted (removeChannel name s) = mounted s"
  "effectDeps (removeChannel name s) = effectDeps s"
  "effectCleanup (removeChannel name s) = effectCleanup s"
  "pendingLoads (removeChannel name s) = pendingLoads s"
  "pendingLookups (removeChannel name s) = pendingLookups s"
  "pendingRefetches (removeChannel name s) = pendingRefetches s"
  "pendingUploads (removeChannel name s) = pendingUploads s"
  "pendingJoins (removeChannel name s) = pendingJoins s"
  "pendingLeaves (removeChannel name s) = pendingLeaves s"
  "sendsInFlight (removeChannel name s) = sendsInFlight s"
  "sendLog (removeChannel name s) = sendLog s"
  "roomCalls (removeChannel name s) = roomCalls s"
  "toasts (removeChannel name s) = toasts s"
  "navigations (removeChannel name s) = navigations s"
  by (simp_all add: removeChannel_def )

lemma realtime_body_frame [simp]:
  "roomId (realtime_body s) = roomId s"
  "rp_user (realtime_body s) = rp_user s"
  "room (realtime_body s) = room s"
  "members (realtime_body s) = members s"
  "messages (realtime_body s) = messages s"
  "newMessage (realtime_body s) = newMessage s"
  "isMember (realtime_body s) = isMember s"
  "rp_loading (realtime_body s) = rp_loading s"
  "sendingMessage (realtime_body s) = sendingMessage s"
  "uploadingFile (realtime_body s) = uploadingFile s"
  "mounted (realtime_body s) = mounted s"
  "effectDeps (realtime_body s) = effectDeps s"
  "pendingLoads (realtime_body s) = pendingLoads s"
  "pendingLookups (realtime_body s) = pendingLookups s"
  "pendingRefetches (realtime_body s) = pendingRefetches s"
  "pendingUploads (realtime_body s) = pendingUploads s"
  "pendingJoins (realtime_body s) = pendingJoins s"
  "pendingLeaves (realtime_body s) = pendingLeaves s"
  "sendsInFlight (realtime_body s) = sendsInFlight s"
  "sendLog (realtime_body s) = sendLog s"
  "roomCalls (realtime_body s) = roomCalls s"
  "toasts (realtime_body s) = toasts s"
  "navigations (realtime_body s) = navigations s"
  by (simp_all add: realtime_body_def subscribe_def split: option.splits)

lemma realtime_cleanup_frame [simp]:
  "roomId (realtime_cleanup s) = roomId s"
  "rp_user (realtime_cleanup s) = rp_user s"
  "room (realtime_cleanup s) = room s"
  "members (realtime_cleanup s) = members s"
  "messages (realtime_cleanup s) = messages s"
  "newMessage (realtime_cleanup s) = newMessage s"
  "isMember (realtime_cleanup s) = isMember s"
  "rp_loading (realtime_cleanup s) = rp_loading s"
  "sendingMessage (realtime_cleanup s) = sendingMessage s"
  "uploadingFile (realtime_cleanup s) = uploadingFile s"
  "mounted (realtime_cleanup s) = mounted s"
  "effectDeps (realtime_cleanup s) = effectDeps s"
  "pendingLoads (realtime_cleanup s) = pendingLoads s"
  "pendingLookups (realtime_cleanup s) = pendingLookups s"
  "pendingRefetches (realtime_cleanup s) = pendingRefetches s"
  "pendingUploads (realtime_cleanup s) = pendingUploads s"
  "pendingJoins (realtime_cleanup s) = pendingJoins s"
  "pendingLeaves (realtime_cleanup s) = pendingLeaves s"
  "sendsInFlight (realtime_cleanup s) = sendsInFlight s"
  "sendLog (realtime_cleanup s) = sendLog s"
  "roomCalls (realtime_cleanup s) = roomCalls s"
  "toasts (realtime_cleanup s) = toasts s"
  "navigations (realtime_cleanup s) = navigations s"
  by (simp_all add: realtime_cleanup_def removeChannel_def split: option.splits prod.splits)

lemma messagesInsert_call_frame [simp]:
  "roomId (messagesInsert_call payload s) = roomId s"
  "rp_user (messagesInsert_call payload s) = rp_user s"
  "room (messagesInsert_call payload s) = room s"
  "members (messagesInsert_call payload s) = members s"
  "messages (messagesInsert_call payload s) = messages s"
  "newMessage (messagesInsert_call payload s) = newMessage s"
  "isMember (messagesInsert_call payload s) = isMember s"
  "rp_loading (messagesInsert_call payload s) = rp_loading s"
  "sendingMessage (messagesInsert_call payload s) = sendingMessage s"
  "uploadingFile (messagesInsert_call payload s) = uploadingFile s"
  "mounted (messagesInsert_call payload s) = mounted s"
  "channels (messagesInsert_call payload s) = channels s"
  "channelLog (messagesInsert_call payload s) = channelLog s"
  "effectDeps (messagesInsert_call payload s) = effectDeps s"
  "effectCleanup (messagesInsert_call payload s) = effectCleanup s"
  "pendingLoads (messagesInsert_call payload s) = pendingLoads s"
  "pendingRefetches (messagesInsert_call payload s) = pendingRefetches s"
  "pendingUploads (messagesInsert_call payload s) = pendingUploads s"
  "pendingJoins (messagesInsert_call payload s) = pendingJoins s"
  "pendingLeaves (messagesInsert_call payload s) = pendingLeaves s"
  "sendsInFlight (messagesInsert_call payload s) = sendsInFlight s"
  "sendLog (messagesInsert_call payload s) = sendLog s"
  "toasts (messagesInsert_call payload s) = toasts s"
  "navigations (messagesInsert_call payload s) = navigations s"
  by (simp_all add: messagesInsert_call_def )

lemma messagesInsert_resume_frame [simp]:
  "roomId (messagesInsert_resume payload response s) = roomId s"
  "rp_user (messagesInsert_resume payload response s) = rp_user s"
  "room (messagesInsert_resume payload response s) = room s"
  "members (messagesInsert_resume payload response s) = members s"
  "newMessage (messagesInsert_resume payload response s) = newMessage s"
  "isMember (messagesInsert_resume payload response s) = isMember s"
  "rp_loading (messagesInsert_resume payload response s) = rp_loading s"
  "sendingMessage (messagesInsert_resume payload response s) = sendingMessage s"
  "uploadingFile (messagesInsert_resume payload response s) = uploadingFile s"
  "mounted (messagesInsert_resume payload response s) = mounted s"
  "channels (messagesInsert_resume payload response s) = channels s"
  "channelLog (messagesInsert_resume payload response s) = channelLog s"
  "effectDeps (messagesInsert_resume payload response s) = effectDeps s"
  "effectCleanup (messagesInsert_resume payload response s) = effectCleanup s"
  "pendingLoads (messagesInsert_resume payload response s) = pendingLoads s"
  "pendingLookups (messagesInsert_resume payload response s) = pendingLookups s"
  "pendingRefetches (messagesInsert_resume payload response s) = pendingRefetches s"
  "pendingUploads (messagesInsert_resume payload response s) = pendingUploads s"
  "pendingJoins (messagesInsert_resume payload response s) = pendingJoins s"
  "pendingLeaves (messagesInsert_resume payload response s) = pendingLeaves s"
  "sendsInFlight (messagesInsert_resume payload response s) = sendsInFlight s"
  "sendLog (messagesInsert_resume payload response s) = sendLog s"
  "roomCalls (messagesInsert_resume payload response s) = roomCalls s"
  "toasts (messagesInsert_resume payload response s) = toasts s"
  "navigations (messagesInsert_resume payload response s) = navigations s"
  by (simp_all add: messagesInsert_resume_def Let_def)

lemma membersChange_call_frame [simp]:
  "roomId (membersChange_call rid s) = roomId s"
  "rp_user (membersChange_call rid s) = rp_user s"
  "room (membersChange_call rid s) = room s"
  "members (membersChange_call rid s) = members s"
  "messages (membersChange_call rid s) = messages s"
  "newMessage (membersChange_call rid s) = newMessage s"
  "isMember (membersChange_call rid s) = isMember s"
  "rp_loading (membersChange_call rid s) = rp_loading s"
  "sendingMessage (membersChange_call rid s) = sendingMessage s"
  "uploadingFile (membersChange_call rid s) = uploadingFile s"
  "mounted (membersChange_call rid s) = mounted s"
  "channels (membersChange_call rid s) = channels s"
  "channelLog (membersChange_call rid s) = channelLog s"
  "effectDeps (membersChange_call rid s) = effectDeps s"
  "effectCleanup (membersChange_call rid s) = effectCleanup s"
  "pendingLoads (membersChange_call rid s) = pendingLoads s"
  "pendingLookups (membersChange_call rid s) = pendingLookups s"
  "pendingUploads (membersChange_call rid s) = pendingUploads s"
  "pendingJoins (membersChange_call rid s) = pendingJoins s"
  "pendingLeaves (membersChange_call rid s) = pendingLeaves s"
  "sendsInFlight (membersChange_call rid s) = sendsInFlight s"
  "sendLog (membersChange_call rid s) = sendLog s"
  "toasts (membersChange_call rid s) = toasts s"
  "navigations (membersChange_call rid s) = navigations s"
  by (simp_all add: membersChange_call_def )

lemma membersChange_resume_frame [simp]:
  "roomId (membersChange_resume r s) = roomId s"
  "rp_user (membersChange_resume r s) = rp_user s"
  "room (membersChange_resume r s) = room s"
  "messages (membersChange_resume r s) = messages s"
  "newMessage (membersChange_resume r s) = newMessage s"
  "isMember (membersChange_resume r s) = isMember s"
  "rp_loading (membersChange_resume r s) = rp_loading s"
  "sendingMessage (membersChange_resume r s) = sendingMessage s"
  "uploadingFile (membersChange_resume r s) = uploadingFile s"
  "mounted (membersChange_resume r s) = mounted s"
  "channels (membersChange_resume r s) = channels s"
  "channelLog (membersChange_resume r s) = channelLog s"
  "effectDeps (membersChange_resume r s) = effectDeps s"
  "effectCleanup (membersChange_resume r s) = effectCleanup s"
  "pendingLoads (membersChange_resume r s) = pendingLoads s"
  "pendingLookups (membersChange_resume r s) = pendingLookups s"
  "pendingRefetches (membersChange_resume r s) = pendingRefetches s"
  "pendingUploads (membersChange_resume r s) = pendingUploads s"
  "pendingJoins (membersChange_resume r s) = pendingJoins s"
  "pendingLeaves (membersChange_resume r s) = pendingLeaves s"
  "sendsInFlight (membersChange_resume r s) = sendsInFlight s"
  "sendLog (membersChange_resume r s) = sendLog s"
  "roomCalls (membersChange_resume r s) = roomCalls s"
  "toasts (membersChange_resume r s) = toasts s"
  "navigations (membersChange_resume r s) = navigations s"
  by (simp_all add: membersChange_resume_def split: settled.splits)

lemma sendMessage_call_frame [simp]:
  "roomId (sendMessage_call who rid body s) = roomId s"
  "rp_user (sendMessage_call who rid body s) = rp_user s"
  "room (sendMessage_call who rid body s) = room s"
  "members (sendMessage_call who rid body s) = members s"
  "messages (sendMessage_call who rid body s) = messages s"
  "newMessage (sendMessage_call who rid body s) = newMessage s"
  "isMember (sendMessage_call who rid body s) = isMember s"
  "rp_loading (sendMessage_call who rid body s) = rp_loading s"
  "sendingMessage (sendMessage_call who rid body s) = sendingMessage s"
  "uploadingFile (sendMessage_call who rid body s) = uploadingFile s"
  "mounted (sendMessage_call who rid body s) = mounted s"
  "channels (sendMessage_call who rid body s) = channels s"
  "channelLog (sendMessage_call who rid body s) = channelLog s"
  "effectDeps (sendMessage_call who rid body s) = effectDeps s"
  "effectCleanup (sendMessage_call who rid body s) = effectCleanup s"
  "pendingLoads (sendMessage_call who rid body s) = pendingLoads s"
  "pendingLookups (sendMessage_call who rid body s) = pendingLookups s"
  "pendingRefetches (sendMessage_call who rid body s) = pendingRefetches s"
  "pendingUploads (sendMessage_call who rid body s) = pendingUploads s"
  "pendingJoins (sendMessage_call who rid body s) = pendingJoins s"
  "pendingLeaves (sendMessage_call who rid body s) = pendingLeaves s"
  "roomCalls (sendMessage_call who rid body s) = roomCalls s"
  "toasts (sendMessage_call who rid body s) = toasts s"
  "navigations (sendMessage_call who rid body s) = navigations s"
  by (simp_all add: sendMessage_call_def )

lemma handleSendMessage_call_frame [simp]:
  "roomId (handleSendMessage_call s) = roomId s"
  "rp_user (handleSendMessage_call s) = rp_user s"
  "room (handleSendMessage_call s) = room s"
  "members (handleSendMessage_call s) = members s"
  "messages (handleSendMessage_call s) = messages s"
  "newMessage (handleSendMessage_call s) = newMessage s"
  "isMember (handleSendMessage_call s) = isMember s"
  "rp_loading (handleSendMessage_call s) = rp_loading s"
  "uploadingFile (handleSendMessage_call s) = uploadingFile s"
  "mounted (handleSendMessage_call s) = mounted s"
  "channels (handleSendMessage_call s) = channels s"
  "channelLog (handleSendMessage_call s) = channelLog s"
  "effectDeps (handleSendMessage_call s) = effectDeps s"
  "effectCleanup (handleSendMessage_call s) = effectCleanup s"
  "pendingLoads (handleSendMessage_call s) = pendingLoads s"
  "pendingLookups (handleSendMessage_call s) = pendingLookups s"
  "pendingRefetches (handleSendMessage_call s) = pendingRefetches s"
  "pendingUploads (handleSendMessage_call s) = pendingUploads s"
  "pendingJoins (handleSendMessage_call s) = pendingJoins s"
  "pendingLeaves (handleSendMessage_call s) = pendingLeaves s"
  "roomCalls (handleSendMessage_call s) = roomCalls s"
  "toasts (handleSendMessage_call s) = toasts s"
  "navigations (handleSendMessage_call s) = navigations s"
  by (simp_all add: handleSendMessage_call_def sendMessage_call_def split: option.splits)

lemma handleSendMessage_resume_frame [simp]:
  "roomId (handleSendMessage_resume r s) = roomId s"
  "rp_user (handleSendMessage_resume r s) = rp_user s"
  "room (handleSendMessage_resume r s) = room s"
  "members (handleSendMessage_resume r s) = members s"
  "messages (handleSendMessage_resume r s) = messages s"
  "isMember (handleSendMessage_resume r s) = isMember s"
  "rp_loading (handleSendMessage_resume r s) = rp_loading s"
  "uploadingFile (handleSendMessage_resume r s) = uploadingFile s"
  "mounted (handleSendMessage_resume r s) = mounted s"
  "channels (handleSendMessage_resume r s) = channels s"
  "channelLog (handleSendMessage_resume r s) = channelLog s"
  "effectDeps (handleSendMessage_resume r s) = effectDeps s"
  "effectCleanup (handleSendMessage_resume r s) = effectCleanup s"
  "pendingLoads (handleSendMessage_resume r s) = pendingLoads s"
  "pendingLookups (handleSendMessage_resume r s) = pendingLookups s"
  "pendingRefetches (handleSendMessage_resume r s) = pendingRefetches s"
  "pendingUploads (handleSendMessage_resume r s) = pendingUploads s"
  "pendingJoins (handleSendMessage_resume r s) = pendingJoins s"
  "pendingLeaves (handleSendMessage_resume r s) = pendingLeaves s"
  "sendsInFlight (handleSendMessage_resume r s) = sendsInFlight s"
  "sendLog (handleSendMessage_resume r s) = sendLog s"
  "roomCalls (handleSendMessage_resume r s) = roomCalls s"
  "navigations (handleSendMessage_resume r s) = navigations s"
  by (simp_all add: handleSendMessage_resume_def split: settled.splits option.splits)

lemma handleFileUpload_call_frame [simp]:
  "roomId (handleFileUpload_call hasFile s) = roomId s"
  "rp_user (handleFileUpload_call hasFile s) = rp_user s"
  "room (handleFileUpload_call hasFile s) = room s"
  "members (handleFileUpload_call hasFile s) = members s"
  "messages (handleFileUpload_call hasFile s) = messages s"
  "newMessage (handleFileUpload_call hasFile s) = newMessage s"
  "isMember (handleFileUpload_call hasFile s) = isMember s"
  "rp_loading (handleFileUpload_call hasFile s) = rp_loading s"
  "sendingMessage (handleFileUpload_call hasFile s) = sendingMessage s"
  "mounted (handleFileUpload_call hasFile s) = mounted s"
  "channels (handleFileUpload_call hasFile s) = channels s"
  "channelLog (handleFileUpload_call hasFile s) = channelLog s"
  "effectDeps (handleFileUpload_call hasFile s) = effectDeps s"
  "effectCleanup (handleFileUpload_call hasFile s) = effectCleanup s"
  "pendingLoads (handleFileUpload_call hasFile s) = pendingLoads s"
  "pendingLookups (handleFileUpload_call hasFile s) = pendingLookups s"
  "pendingRefetches (handleFileUpload_call hasFile s) = pendingRefetches s"
  "pendingJoins (handleFileUpload_call hasFile s) = pendingJoins s"
  "pendingLeaves (handleFileUpload_call hasFile s) = pendingLeaves s"
  "sendsInFlight (handleFileUpload_call hasFile s) = sendsInFlight s"
  "sendLog (handleFileUpload_call hasFile s) = sendLog s"
  "toasts (handleFileUpload_call hasFile s) = toasts s"
  "navigations (handleFileUpload_call hasFile s) = navigations s"
  by (simp_all add: handleFileUpload_call_def split: option.splits)

lemma handleFileUpload_afterUpload_frame [simp]:
  "roomId (handleFileUpload_afterUpload rid r s) = roomId s"
  "rp_user (handleFileUpload_afterUpload rid r s) = rp_user s"
  "room (handleFileUpload_afterUpload rid r s) = room s"
  "members (handleFileUpload_afterUpload rid r s) = members s"
  "messages (handleFileUpload_afterUpload rid r s) = messages s"
  "newMessage (handleFileUpload_afterUpload rid r s) = newMessage s"
  "isMember (handleFileUpload_afterUpload rid r s) = isMember s"
  "rp_loading (handleFileUpload_afterUpload rid r s) = rp_loading s"
  "sendingMessage (handleFileUpload_afterUpload rid r s) = sendingMessage s"
  "mounted (handleFileUpload_afterUpload rid r s) = mounted s"
  "channels (handleFileUpload_afterUpload rid r s) = channels s"
  "channelLog (handleFileUpload_afterUpload rid r s) = channelLog s"
  "effectDeps (handleFileUpload_afterUpload rid r s) = effectDeps s"
  "effectCleanup (handleFileUpload_afterUpload rid r s) = effectCleanup s"
  "pendingLoads (handleFileUpload_afterUpload rid r s) = pendingLoads s"
  "pendingLookups (handleFileUpload_afterUpload rid r s) = pendingLookups s"
  "pendingRefetches (handleFileUpload_afterUpload rid r s) = pendingRefetches s"
  "pendingUploads (handleFileUpload_afterUpload rid r s) = pendingUploads s"
  "pendingJoins (handleFileUpload_afterUpload rid r s) = pendingJoins s"
  "pendingLeaves (handleFileUpload_afterUpload rid r s) = pendingLeaves s"
  "roomCalls (handleFileUpload_afterUpload rid r s) = roomCalls s"
  "navigations (handleFileUpload_afterUpload rid r s) = navigations s"
  by (simp_all add: handleFileUpload_afterUpload_def sendMessage_call_def split: settled.splits option.splits)

lemma handleFileUpload_afterSend_frame [simp]:
  "roomId (handleFileUpload_afterSend r s) = roomId s"
  "rp_user (handleFileUpload_afterSend r s) = rp_user s"
  "room (handleFileUpload_afterSend r s) = room s"
  "members (handleFileUpload_afterSend r s) = members s"
  "messages (handleFileUpload_afterSend r s) = messages s"
  "newMessage (handleFileUpload_afterSend r s) = newMessage s"
  "isMember (handleFileUpload_afterSend r s) = isMember s"
  "rp_loading (handleFileUpload_afterSend r s) = rp_loading s"
  "sendingMessage (handleFileUpload_afterSend r s) = sendingMessage s"
  "mounted (handleFileUpload_afterSend r s) = mounted s"
  "channels (handleFileUpload_afterSend r s) = channels s"
  "channelLog (handleFileUpload_afterSend r s) = channelLog s"
  "effectDeps (handleFileUpload_afterSend r s) = effectDeps s"
  "effectCleanup (handleFileUpload_afterSend r s) = effectCleanup s"
  "pendingLoads (handleFileUpload_afterSend r s) = pendingLoads s"
  "pendingLookups (handleFileUpload_afterSend r s) = pendingLookups s"
  "pendingRefetches (handleFileUpload_afterSend r s) = pendingRefetches s"
  "pendingUploads (handleFileUpload_afterSend r s) = pendingUploads s"
  "pendingJoins (handleFileUpload_afterSend r s) = pendingJoins s"
  "pendingLeaves (handleFileUpload_afterSend r s) = pendingLeaves s"
  "sendsInFlight (handleFileUpload_afterSend r s) = sendsInFlight s"
  "sendLog (handleFileUpload_afterSend r s) = sendLog s"
  "roomCalls (handleFileUpload_afterSend r s) = roomCalls s"
  "navigations (handleFileUpload_afterSend r s) = navigations s"
  by (simp_all add: handleFileUpload_afterSend_def split: settled.splits option.splits)

lemma handleJoinRoom_call_frame [simp]:
  "roomId (handleJoinRoom_call s) = roomId s"
  "rp_user (handleJoinRoom_call s) = rp_user s"
  "room (handleJoinRoom_call s) = room s"
  "members (handleJoinRoom_call s) = members s"
  "messages (handleJoinRoom_call s) = messages s"
  "newMessage (handleJoinRoom_call s) = newMessage s"
  "isMember (handleJoinRoom_call s) = isMember s"
  "rp_loading (handleJoinRoom_call s) = rp_loading s"
  "sendingMessage (handleJoinRoom_call s) = sendingMessage s"
  "uploadingFile (handleJoinRoom_call s) = uploadingFile s"
  "mounted (handleJoinRoom_call s) = mounted s"
  "channels (handleJoinRoom_call s) = channels s"
  "channelLog (handleJoinRoom_call s) = channelLog s"
  "effectDeps (handleJoinRoom_call s) = effectDeps s"
  "effectCleanup (handleJoinRoom_call s) = effectCleanup s"
  "pendingLoads (handleJoinRoom_call s) = pendingLoads s"
  "pendingLookups (handleJoinRoom_call s) = pendingLookups s"
  "pendingRefetches (handleJoinRoom_call s) = pendingRefetches s"
  "pendingUploads (handleJoinRoom_call s) = pendingUploads s"
  "pendingLeaves (handleJoinRoom_call s) = pendingLeaves s"
  "sendsInFlight (handleJoinRoom_call s) = sendsInFlight s"
  "sendLog (handleJoinRoom_call s) = sendLog s"
  "toasts (handleJoinRoom_call s) = toasts s"
  "navigations (handleJoinRoom_call s) = navigations s"
  by (simp_all add: handleJoinRoom_call_def split: option.splits)

lemma handleJoinRoom_resume_frame [simp]:
  "roomId (handleJoinRoom_resume r s) = roomId s"
  "rp_user (handleJoinRoom_resume r s) = rp_user s"
  "room (handleJoinRoom_resume r s) = room s"
  "members (handleJoinRoom_resume r s) = members s"
  "messages (handleJoinRoom_resume r s) = messages s"
  "newMessage (handleJoinRoom_resume r s) = newMessage s"
  "rp_loading (handleJoinRoom_resume r s) = rp_loading s"
  "sendingMessage (handleJoinRoom_resume r s) = sendingMessage s"
  "uploadingFile (handleJoinRoom_resume r s) = uploadingFile s"
  "mounted (handleJoinRoom_resume r s) = mounted s"
  "channels (handleJoinRoom_resume r s) = channels s"
  "channelLog (handleJoinRoom_resume r s) = channelLog s"
  "effectDeps (handleJoinRoom_resume r s) = effectDeps s"
  "effectCleanup (handleJoinRoom_resume r s) = effectCleanup s"
  "pendingLoads (handleJoinRoom_resume r s) = pendingLoads s"
  "pendingLookups (handleJoinRoom_resume r s) = pendingLookups s"
  "pendingRefetches (handleJoinRoom_resume r s) = pendingRefetches s"
  "pendingUploads (handleJoinRoom_resume r s) = pendingUploads s"
  "pendingJoins (handleJoinRoom_resume r s) = pendingJoins s"
  "pendingLeaves (handleJoinRoom_resume r s) = pendingLeaves s"
  "sendsInFlight (handleJoinRoom_resume r s) = sendsInFlight s"
  "sendLog (handleJoinRoom_resume r s) = sendLog s"
  "roomCalls (handleJoinRoom_resume r s) = roomCalls s"
  "navigations (handleJoinRoom_resume r s) = navigations s"
  by (simp_all add: handleJoinRoom_resume_def split: settled.splits)

lemma handleLeaveRoom_call_frame [simp]:
  "roomId (handleLeaveRoom_call s) = roomId s"
  "rp_user (handleLeaveRoom_call s) = rp_user s"
  "room (handleLeaveRoom_call s) = room s"
  "members (handleLeaveRoom_call s) = members s"
  "messages (handleLeaveRoom_call s) = messages s"
  "newMessage (handleLeaveRoom_call s) = newMessage s"
  "isMember (handleLeaveRoom_call s) = isMember s"
  "rp_loading (handleLeaveRoom_call s) = rp_loading s"
  "sendingMessage (handleLeaveRoom_call s) = sendingMessage s"
  "uploadingFile (handleLeaveRoom_call s) = uploadingFile s"
  "mounted (handleLeaveRoom_call s) = mounted s"
  "channels (handleLeaveRoom_call s) = channels s"
  "channelLog (handleLeaveRoom_call s) = channelLog s"
  "effectDeps (handleLeaveRoom_call s) = effectDeps s"
  "effectCleanup (handleLeaveRoom_call s) = effectCleanup s"
  "pendingLoads (handleLeaveRoom_call s) = pendingLoads s"
  "pendingLookups (handleLeaveRoom_call s) = pendingLookups s"
  "pendingRefetches (handleLeaveRoom_call s) = pendingRefetches s"
  "pendingUploads (handleLeaveRoom_call s) = pendingUploads s"
  "pendingJoins (handleLeaveRoom_call s) = pendingJoins s"
  "sendsInFlight (handleLeaveRoom_call s) = sendsInFlight s"
  "sendLog (handleLeaveRoom_call s) = sendLog s"
  "toasts (handleLeaveRoom_call s) = toasts s"
  "navigations (handleLeaveRoom_call s) = navigations s"
  by (simp_all add: handleLeaveRoom_call_def split: option.splits)

lemma handleLeaveRoom_resume_frame [simp]:
  "roomId (handleLeaveRoom_resume r s) = roomId s"
  "rp_user (handleLeaveRoom_resume r s) = rp_user s"
  "room (handleLeaveRoom_resume r s) = room s"
  "members (handleLeaveRoom_resume r s) = members s"
  "messages (handleLeaveRoom_resume r s) = messages s"
  "newMessage (handleLeaveRoom_resume r s) = newMessage s"
  "isMember (handleLeaveRoom_resume r s) = isMember s"
  "rp_loading (handleLeaveRoom_resume r s) = rp_loading s"
  "sendingMessage (handleLeaveRoom_resume r s) = sendingMessage s"
  "uploadingFile (handleLeaveRoom_resume r s) = uploadingFile s"
  "mounted (handleLeaveRoom_resume r s) = mounted s"
  "channels (handleLeaveRoom_resume r s) = channels s"
  "channelLog (handleLeaveRoom_resume r s) = channelLog s"
  "effectDeps (handleLeaveRoom_resume r s) = effectDeps s"
  "effectCleanup (handleLeaveRoom_resume r s) = effectCleanup s"
  "pendingLoads (handleLeaveRoom_resume r s) = pendingLoads s"
  "pendingLookups (handleLeaveRoom_resume r s) = pendingLookups s"
  "pendingRefetches (handleLeaveRoom_resume r s) = pendingRefetches s"
  "pendingUploads (handleLeaveRoom_resume r s) = pendingUploads s"
  "pendingJoins (handleLeaveRoom_resume r s) = pendingJoins s"
  "pendingLeaves (handleLeaveRoom_resume r s) = pendingLeaves s"
  "sendsInFlight (handleLeaveRoom_resume r s) = sendsInFlight s"
  "sendLog (handleLeaveRoom_resume r s) = sendLog s"
  "roomCalls (handleLeaveRoom_resume r s) = roomCalls s"
  by (simp_all add: handleLeaveRoom_resume_def split: settled.splits)

lemma flushRealtime_frame [simp]:
  "roomId (flushRealtime s) = roomId s"
  "rp_user (flushRealtime s) = rp_user s"
  "room (flushRealtime s) = room s"
  "members (flushRealtime s) = members s"
  "messages (flushRealtime s) = messages s"
  "newMessage (flushRealtime s) = newMessage s"
  "isMember (flushRealtime s) = isMember s"
  "rp_loading (flushRealtime s) = rp_loading s"
  "sendingMessage (flushRealtime s) = sendingMessage s"
  "uploadingFile (flushRealtime s) = uploadingFile s"
  "mounted (flushRealtime s) = mounted s"
  "pendingLoads (flushRealtime s) = pendingLoads s"
  "pendingLookups (flushRealtime s) = pendingLookups s"
  "pendingRefetches (flushRealtime s) = pendingRefetches s"
  "pendingUploads (flushRealtime s) = pendingUploads s"
  "pendingJoins (flushRealtime s) = pendingJoins s"
  "pendingLeaves (flushRealtime s) = pendingLeaves s"
  "sendsInFlight (flushRealtime s) = sendsInFlight s"
  "sendLog (flushRealtime s) = sendLog s"
  "roomCalls (flushRealtime s) = roomCalls s"
  "toasts (flushRealtime s) = toasts s"
  "navigations (flushRealtime s) = navigations s"
  by (simp_all add: flushRealtime_def)

lemma room_run_snoc [simp]: "room_run (evs @ [e]) s = room_step e (room_run evs s)"
  by (simp add: room_run_def)

lemma room_run_Nil [simp]: "room_run [] s = s"
  by (simp add: room_run_def)

lemma room_run_Cons: "room_run (e # evs) s = room_run evs (room_step e s)"
  by (simp add: room_run_def)

lemma channels_ops [simp]:
  "channels (subscribe name s) = channels s @ [name]"
  "channels (removeChannel name s) = remove1 name (channels s)"
  "channelLog (subscribe name s) = channelLog s @ [Subscribe name]"
  "channelLog (removeChannel name s) = channelLog s @ [RemoveChannel name]"
  by (simp_all add: subscribe_def removeChannel_def)

lemma bridge_for_cases:
  "bridge_for r m = [] \<or> (\<exists>rid. r = Some rid \<and> rid \<noteq> [] \<and> m \<and>
     bridge_for r m = [messagesChannel rid, membersChannel rid])"
  by (auto simp: bridge_for_def split: option.splits)

lemma realtime_cleanup_sub:
  "sub_inv s \<Longrightarrow>
     channels (realtime_cleanup s) = [] \<and> effectCleanup (realtime_cleanup s) = None \<and>
     channelLog (realtime_cleanup s) = channelLog s @ map RemoveChannel (channels s)"
  using bridge_for_cases [of "fst (the (effectDeps s))" "snd (the (effectDeps s))"]
  by (auto simp: sub_inv_def held_def closure_of_def realtime_cleanup_def
      split: option.splits if_splits)

lemma realtime_body_sub:
  "channels s = [] \<Longrightarrow>
     channels (realtime_body s) = bridge_for (roomId s) (isMember s) \<and>
     effectCleanup (realtime_body s) = closure_of (bridge_for (roomId s) (isMember s)) \<and>
     channelLog (realtime_body s) =
       channelLog s @ map Subscribe (bridge_for (roomId s) (isMember s))"
  by (auto simp: realtime_body_def bridge_for_def closure_of_def split: option.splits)

lemma flushRealtime_inv: "sub_inv s \<Longrightarrow> bridge_inv (flushRealtime s)"
proof -
  assume s: "sub_inv s"
  show ?thesis
  proof (cases "\<not> mounted s \<or> effectDeps s = Some (roomId s, isMember s)")
    case True
    with s show ?thesis by (auto simp: bridge_inv_def flushRealtime_def)
  next
    case False
    define c where "c = (realtime_cleanup s)\<lparr> effectDeps := Some (roomId s, isMember s) \<rparr>"
    from realtime_cleanup_sub [OF s] have c: "channels c = []" "roomId c = roomId s"
      "isMember c = isMember s" "mounted c = mounted s"
      "effectDeps c = Some (roomId s, isMember s)"
      by (simp_all add: c_def)
    have f: "flushRealtime s = realtime_body c"
      using False by (simp add: flushRealtime_def c_def)
    from realtime_body_sub [OF c(1)] c False show ?thesis
      unfolding f bridge_inv_def sub_inv_def
      by (simp add: held_def)
  qed
qed


lemma bridge_sub: "bridge_inv s \<Longrightarrow> sub_inv s"
  by (simp add: bridge_inv_def)

lemma room_handle_frame:
  "e \<noteq> Unmount \<Longrightarrow> channels (room_handle e s) = channels s"
  "e \<noteq> Unmount \<Longrightarrow> channelLog (room_handle e s) = channelLog s"
  "e \<noteq> Unmount \<Longrightarrow> effectDeps (room_handle e s) = effectDeps s"
  "e \<noteq> Unmount \<Longrightarrow> effectCleanup (room_handle e s) = effectCleanup s"
  "e \<noteq> Unmount \<Longrightarrow> mounted (room_handle e s) = mounted s"
  by (cases e; simp split: list.splits)+

lemma room_handle_sub: "sub_inv s \<Longrightarrow> sub_inv (room_handle e s)"
proof (cases "e = Unmount")
  case True
  assume s: "sub_inv s"
  from realtime_cleanup_sub [OF s] s show ?thesis unfolding True
    by (simp add: sub_inv_def held_def closure_of_def split: option.splits)
next
  case False
  assume "sub_inv s"
  then show ?thesis
    by (simp add: sub_inv_def room_handle_frame [OF False])
qed

lemma room_step_inv: "bridge_inv s \<Longrightarrow> bridge_inv (room_step e s)"
  unfolding room_step_def by (intro flushRealtime_inv room_handle_sub bridge_sub)

lemma room_mount_inv: "bridge_inv (room_mount rid u)"
  unfolding room_mount_def
  by (rule flushRealtime_inv)
     (simp add: sub_inv_def held_def closure_of_def initial_room_def)

lemma room_run_inv: "bridge_inv s \<Longrightarrow> bridge_inv (room_run evs s)"
  by (induction evs rule: rev_induct) (simp_all add: room_step_inv)


lemma trim_empty_iff: "trim cs = [] \<longleftrightarrow> blank cs"
proof -
  have "trim cs = [] \<longleftrightarrow> (\<forall>c\<in>set (dropWhile isWhiteSpace cs). isWhiteSpace c)"
    by (simp add: trim_def)
  also have "\<dots> \<longleftrightarrow> dropWhile isWhiteSpace cs = []"
  proof
    assume a: "\<forall>c\<in>set (dropWhile isWhiteSpace cs). isWhiteSpace c"
    show "dropWhile isWhiteSpace cs = []"
    proof (rule ccontr)
      assume n: "dropWhile isWhiteSpace cs \<noteq> []"
      then have "\<not> isWhiteSpace (hd (dropWhile isWhiteSpace cs))"
        by (rule hd_dropWhile)
      moreover from n have "hd (dropWhile isWhiteSpace cs) \<in> set (dropWhile isWhiteSpace cs)"
        by (rule hd_in_set)
      ultimately show False using a by blast
    qed
  next
    assume e: "dropWhile isWhiteSpace cs = []"
    show "\<forall>c\<in>set (dropWhile isWhiteSpace cs). isWhiteSpace c"
      unfolding e by simp
  qed
  also have "\<dots> \<longleftrightarrow> blank cs"
    by (simp add: blank_def list_all_iff)
  finally show ?thesis .
qed

lemma imageContent_not_blank: "\<not> blank (imageContent fileUrl)"
  by (simp add: blank_def imageContent_def isWhiteSpace_def)

lemma filter_pos: "x \<in> set xs \<Longrightarrow> P x \<Longrightarrow> 0 < length (filter P xs)"
  by (induction xs) auto

lemma filter_remove1_length:
  "x \<in> set xs \<Longrightarrow> P x \<Longrightarrow> length (filter P (remove1 x xs)) = length (filter P xs) - 1"
proof (induction xs)
  case Nil
  then show ?case by simp
next
  case (Cons a xs)
  show ?case
  proof (cases "x = a")
    case True
    with Cons.prems show ?thesis by simp
  next
    case False
    with Cons.prems have "x \<in> set xs" by simp
    with Cons.IH Cons.prems filter_pos [of x xs P] False show ?thesis by simp
  qed
qed

lemma filter_remove_nth:
  "i < length xs \<Longrightarrow> \<not> P (xs ! i) \<Longrightarrow> filter P (remove_nth i xs) = filter P xs"
proof -
  assume i: "i < length xs" and n: "\<not> P (xs ! i)"
  from i have "xs = take i xs @ xs ! i # drop (Suc i) xs"
    by (rule id_take_nth_drop)
  then have "filter P xs = filter P (take i xs) @ filter P (xs ! i # drop (Suc i) xs)"
    by (metis filter_append)
  with n show ?thesis by (simp add: remove_nth_def)
qed

lemma sends_ops [simp]:
  "sendsInFlight (sendMessage_call who rid body s) = sendsInFlight s @ [(who, rid, body)]"
  "sendLog (sendMessage_call who rid body s) = sendLog s @ [(who, rid, body)]"
  by (simp_all add: sendMessage_call_def)

lemma room_handle_send_frame:
  "e \<noteq> SendPressed \<Longrightarrow> (\<forall>r. e \<noteq> TextSendSettled r) \<Longrightarrow> (\<forall>i r. e \<noteq> UploadSettled i r) \<Longrightarrow>
     (\<forall>i r. e \<noteq> ImageSendSettled i r) \<Longrightarrow>
     sendsInFlight (room_handle e s) = sendsInFlight s \<and> sendLog (room_handle e s) = sendLog s \<and>
     sendingMessage (room_handle e s) = sendingMessage s"
  by (cases e; simp)

lemma send_inv_handle: "send_inv s \<Longrightarrow> send_inv (room_handle e s)"
proof (cases e)
  case SendPressed
  assume "send_inv s"
  then show ?thesis unfolding SendPressed
    by (auto simp: send_inv_def textSends_def handleSendMessage_call_def trim_empty_iff
        split: option.splits)
next
  case (TextSendSettled r)
  assume inv: "send_inv s"
  show ?thesis
  proof (cases "filter (\<lambda>x. fst x = TextSend) (sendsInFlight s)")
    case Nil
    with inv show ?thesis unfolding TextSendSettled by simp
  next
    case (Cons x xs)
    then have "x \<in> set (filter (\<lambda>x. fst x = TextSend) (sendsInFlight s))" by simp
    then have x: "x \<in> set (sendsInFlight s)" "fst x = TextSend" by simp_all
    from inv Cons have one: "length (filter (\<lambda>x. fst x = TextSend) (sendsInFlight s)) = 1"
      by (auto simp: send_inv_def textSends_def split: if_splits)
    have "length (filter (\<lambda>x. fst x = TextSend) (remove1 x (sendsInFlight s))) = 0"
      using filter_remove1_length [of x "sendsInFlight s" "\<lambda>x. fst x = TextSend"] x one by simp
    with inv Cons show ?thesis unfolding TextSendSettled
      by (auto simp: send_inv_def textSends_def handleSendMessage_resume_def
          split: settled.splits option.splits)
  qed
next
  case (UploadSettled i r)
  assume "send_inv s"
  then show ?thesis unfolding UploadSettled
    by (auto simp: send_inv_def textSends_def handleFileUpload_afterUpload_def
        imageContent_not_blank split: settled.splits option.splits)
next
  case (ImageSendSettled i r)
  assume "send_inv s"
  then show ?thesis unfolding ImageSendSettled
    by (auto simp: send_inv_def textSends_def handleFileUpload_afterSend_def filter_remove_nth
        split: settled.splits option.splits)
qed (auto simp: send_inv_def textSends_def split: if_splits)

lemma send_inv_flush: "send_inv (flushRealtime s) = send_inv s"
  by (simp add: send_inv_def textSends_def)

lemma send_inv_step: "send_inv s \<Longrightarrow> send_inv (room_step e s)"
  by (simp add: room_step_def send_inv_flush send_inv_handle)

lemma send_inv_run: "send_inv s \<Longrightarrow> send_inv (room_run evs s)"
  by (induction evs rule: rev_induct) (simp_all add: send_inv_step)

lemma send_inv_mount: "send_inv (room_mount rid u)"
  by (simp add: room_mount_def send_inv_def textSends_def initial_room_def)

lemma flushRealtime_idle: "bridge_inv s \<Longrightarrow> flushRealtime s = s"
  by (auto simp: bridge_inv_def flushRealtime_def)


lemma messages_insert [simp]:
  "messages (messagesInsert_resume p response s) = messages s @ [p\<lparr> msg_profile := fst response \<rparr>]"
  by (simp add: messagesInsert_resume_def)

lemma room_step_lookup:
  "i < length (pendingLookups s) \<Longrightarrow>
     messages (room_step (LookupSettled i response) s) =
       messages s @ [(pendingLookups s ! i)\<lparr> msg_profile := fst response \<rparr>]"
  by (simp add: room_step_def)

lemma ex_loaded_sel:
  "messages (ex_loaded history) = history"
  "channels (ex_loaded history) = [messagesChannel [114, 49], membersChannel [114, 49]]"
  "pendingLookups (ex_loaded history) = []"
  "sendsInFlight (ex_loaded history) = []"
  "mounted (ex_loaded history)"
  "roomId (ex_loaded history) = Some [114, 49]"
  "isMember (ex_loaded history)"
  "rp_user (ex_loaded history) = Some ex_user"
  "\<not> sendingMessage (ex_loaded history)"
  "pendingUploads (ex_loaded history) = []"
  "sendLog (ex_loaded history) = []"
  by (simp_all add: ex_loaded_def room_run_Cons room_step_def room_mount_def initial_room_def
      loadRoomData_call_def loadRoomData_resume_def flushRealtime_def realtime_cleanup_def
      realtime_body_def ex_user_def)



lemma room_step_quiet:
  assumes "bridge_inv s" and "e \<noteq> Unmount"
    and "roomId (room_handle e s) = roomId s" and "isMember (room_handle e s) = isMember s"
  shows "room_step e s = room_handle e s"
proof -
  from assms(1) have "sub_inv (room_handle e s)"
    by (intro room_handle_sub bridge_sub)
  with assms have "bridge_inv (room_handle e s)"
    by (simp add: bridge_inv_def room_handle_frame)
  then show ?thesis
    by (simp add: room_step_def flushRealtime_idle)
qed

lemma deliver_one:
  assumes "bridge_inv s" and "messagesChannel (msg_room_id p) \<in> set (channels s)"
    and "pendingLookups s = []"
  shows "messages (room_run [MessageInserted p, LookupSettled 0 response] s) =
           messages s @ [p\<lparr> msg_profile := fst response \<rparr>] \<and>
         channels (room_run [MessageInserted p, LookupSettled 0 response] s) = channels s \<and>
         pendingLookups (room_run [MessageInserted p, LookupSettled 0 response] s) = [] \<and>
         bridge_inv (room_run [MessageInserted p, LookupSettled 0 response] s)"
proof -
  define s1 where "s1 = room_step (MessageInserted p) s"
  have e1: "s1 = room_handle (MessageInserted p) s"
    unfolding s1_def using assms(1) by (rule room_step_quiet) simp_all
  have b1: "bridge_inv s1"
    unfolding s1_def using assms(1) by (rule room_step_inv)
  have e2: "room_step (LookupSettled 0 response) s1 = room_handle (LookupSettled 0 response) s1"
    using b1 by (rule room_step_quiet) simp_all
  have r: "room_run [MessageInserted p, LookupSettled 0 response] s =
      room_handle (LookupSettled 0 response) s1"
    by (simp add: room_run_Cons s1_def [symmetric] e2)
  have b2: "bridge_inv (room_run [MessageInserted p, LookupSettled 0 response] s)"
    using assms(1) by (rule room_run_inv)
  from assms(2,3) b2 show ?thesis
    unfolding r by (simp add: e1 messagesInsert_call_def remove_nth_def r [symmetric])
qed

lemma room_run_append: "room_run (evs @ evs') s = room_run evs' (room_run evs s)"
  by (simp add: room_run_def)





section \<open>Claims on the room view\<close>

text \<open>
  C1. The claim: when a message with the incoming id is already in the list, merging the
  live event leaves the list unchanged. It fails: the snapshot has loaded message 42,
  the live channel delivers message 42 again, and the list then holds it twice.
\<close>

theorem live_duplicate_is_appended:
  "msg_id (ex_message 42 1) \<in> msg_id ` set (messages (ex_loaded [ex_message 42 1])) \<and>
   messages (room_run [MessageInserted (ex_message 42 1), LookupSettled 0 (None, None)]
      (ex_loaded [ex_message 42 1])) \<noteq> messages (ex_loaded [ex_message 42 1]) \<and>
   map msg_id (messages (room_run [MessageInserted (ex_message 42 1), LookupSettled 0 (None, None)]
      (ex_loaded [ex_message 42 1]))) = [[42], [42]]"
  by (simp add: room_run_Cons room_step_def ex_loaded_sel messagesInsert_call_def
      remove_nth_def ex_message_def)

text \<open>
  C1, amended. Merging a live message event appends the incoming message at the tail of
  the list, whether or not its id is in the list: afterwards the ids of the list are
  free of duplicates exactly when they were before and the incoming id was not among
  them. A snapshot load that completes replaces the list by the history it fetched.
\<close>

theorem live_insert_appends:
  "i < length (pendingLookups s) \<longrightarrow>
     (let p = pendingLookups s ! i; s' = room_step (LookupSettled i response) s
      in messages s' = messages s @ [p\<lparr> msg_profile := fst response \<rparr>] \<and>
         (distinct (map msg_id (messages s')) \<longleftrightarrow>
            distinct (map msg_id (messages s)) \<and> msg_id p \<notin> msg_id ` set (messages s)) \<and>
         messages (loadRoomData_resume (Fulfilled (Some rd)) (Fulfilled membersData)
            (Fulfilled messagesData) (Fulfilled membershipStatus) s') = messagesData)"
  by (auto simp: Let_def room_step_lookup loadRoomData_resume_def)

theorem live_insert_appends_witness:
  "messages (room_step (LookupSettled 0 (None, None))
      (room_step (MessageInserted (ex_message 7 5)) (ex_loaded [ex_message 42 1]))) =
     [ex_message 42 1, ex_message 7 5] \<and>
   distinct (map msg_id (messages (room_step (LookupSettled 0 (None, None))
      (room_step (MessageInserted (ex_message 7 5)) (ex_loaded [ex_message 42 1])))))"
proof -
  define s where "s = room_step (MessageInserted (ex_message 7 5)) (ex_loaded [ex_message 42 1])"
  have p: "pendingLookups s = [ex_message 7 5]" and m: "messages s = [ex_message 42 1]"
    by (simp_all add: s_def room_step_def ex_loaded_sel messagesInsert_call_def ex_message_def)
  then have "0 < length (pendingLookups s)" by simp
  with live_insert_appends [of 0 s "(None, None)" ex_room "[]" "[]" True] p m
  show ?thesis unfolding s_def [symmetric]
    by (simp add: Let_def ex_message_def)
qed

text \<open>
  C5. The snapshot load issues the four reads when the page has a room id and a user.
  When one of the four rejects, \<open>room\<close>, \<open>members\<close>, \<open>messages\<close> and \<open>isMember\<close> are
  left as they were, and so are the open channels; the same holds when the four fulfil
  but the room is absent.
\<close>

theorem snapshot_all_or_nothing:
  "(roomId s = Some rid \<and> rid \<noteq> [] \<and> rp_user s \<noteq> None \<longrightarrow>
      roomCalls (loadRoomData_call s) =
        roomCalls s @ [GetRoom rid, GetRoomMembers rid, GetMessages rid, IsRoomMember rid]) \<and>
   (rejected r1 \<or> rejected r2 \<or> rejected r3 \<or> rejected r4 \<or> r1 = Fulfilled None \<longrightarrow>
      (let s' = loadRoomData_resume r1 r2 r3 r4 s
       in room s' = room s \<and> members s' = members s \<and> messages s' = messages s \<and>
          isMember s' = isMember s)) \<and>
   (bridge_inv s \<and> (rejected r1 \<or> rejected r2 \<or> rejected r3 \<or> rejected r4) \<longrightarrow>
      (let s' = room_step (LoadSettled r1 r2 r3 r4) s
       in room s' = room s \<and> members s' = members s \<and> messages s' = messages s \<and>
          isMember s' = isMember s \<and> channels s' = channels s))"
proof (intro conjI impI)
  assume "roomId s = Some rid \<and> rid \<noteq> [] \<and> rp_user s \<noteq> None"
  then show "roomCalls (loadRoomData_call s) =
      roomCalls s @ [GetRoom rid, GetRoomMembers rid, GetMessages rid, IsRoomMember rid]"
    by (auto simp: loadRoomData_call_def)
next
  assume "rejected r1 \<or> rejected r2 \<or> rejected r3 \<or> rejected r4 \<or> r1 = Fulfilled None"
  then show "let s' = loadRoomData_resume r1 r2 r3 r4 s
       in room s' = room s \<and> members s' = members s \<and> messages s' = messages s \<and>
          isMember s' = isMember s"
    by (cases r1; cases r2; cases r3; cases r4)
       (auto simp: loadRoomData_resume_def Let_def split: option.splits)
next
  assume a: "bridge_inv s \<and> (rejected r1 \<or> rejected r2 \<or> rejected r3 \<or> rejected r4)"
  define h where "h = room_handle (LoadSettled r1 r2 r3 r4) s"
  from a have keep: "room h = room s \<and> members h = members s \<and> messages h = messages s \<and>
      isMember h = isMember s"
    unfolding h_def
    by (cases r1; cases r2; cases r3; cases r4)
       (auto simp: loadRoomData_resume_def split: option.splits)
  have fr: "roomId h = roomId s" "mounted h = mounted s" "effectDeps h = effectDeps s"
    "channels h = channels s"
    by (simp_all add: h_def)
  from a have "sub_inv h"
    unfolding h_def by (intro room_handle_sub bridge_sub) simp
  with a keep fr have "bridge_inv h"
    by (simp add: bridge_inv_def)
  then have "flushRealtime h = h" by (rule flushRealtime_idle)
  then have eq: "room_step (LoadSettled r1 r2 r3 r4) s = h"
    by (simp only: room_step_def h_def)
  from keep fr show "let s' = room_step (LoadSettled r1 r2 r3 r4) s
       in room s' = room s \<and> members s' = members s \<and> messages s' = messages s \<and>
          isMember s' = isMember s \<and> channels s' = channels s"
    unfolding eq Let_def by simp
qed


theorem snapshot_all_or_nothing_witness:
  "roomCalls (loadRoomData_call (initial_room (Some [114, 49]) (Some ex_user))) =
     [GetRoom [114, 49], GetRoomMembers [114, 49], GetMessages [114, 49], IsRoomMember [114, 49]] \<and>
   room (room_step (LoadSettled (Fulfilled (Some ex_room)) (Rejected ''timeout'')
      (Fulfilled [ex_message 42 1]) (Fulfilled True))
      (room_mount (Some [114, 49]) (Some ex_user))) = None \<and>
   messages (room_step (LoadSettled (Fulfilled (Some ex_room)) (Rejected ''timeout'')
      (Fulfilled [ex_message 42 1]) (Fulfilled True))
      (room_mount (Some [114, 49]) (Some ex_user))) = [] \<and>
   \<not> isMember (room_step (LoadSettled (Fulfilled (Some ex_room)) (Rejected ''timeout'')
      (Fulfilled [ex_message 42 1]) (Fulfilled True))
      (room_mount (Some [114, 49]) (Some ex_user))) \<and>
   channels (room_step (LoadSettled (Fulfilled (Some ex_room)) (Rejected ''timeout'')
      (Fulfilled [ex_message 42 1]) (Fulfilled True))
      (room_mount (Some [114, 49]) (Some ex_user))) = []"
proof -
  have a: "roomCalls (loadRoomData_call (initial_room (Some [114, 49]) (Some ex_user))) =
     [GetRoom [114, 49], GetRoomMembers [114, 49], GetMessages [114, 49], IsRoomMember [114, 49]]"
    using snapshot_all_or_nothing [of "initial_room (Some [114, 49]) (Some ex_user)" "[114, 49]"]
    by (simp add: initial_room_def)
  have m: "room (room_mount (Some [114, 49]) (Some ex_user)) = None"
    "messages (room_mount (Some [114, 49]) (Some ex_user)) = []"
    "\<not> isMember (room_mount (Some [114, 49]) (Some ex_user))"
    "channels (room_mount (Some [114, 49]) (Some ex_user)) = []"
    using room_mount_inv [of "Some [114, 49]" "Some ex_user"]
    by (simp_all add: room_mount_def initial_room_def bridge_inv_def sub_inv_def held_def bridge_for_def)
  have b: "let s' = room_step (LoadSettled (Fulfilled (Some ex_room)) (Rejected ''timeout'')
      (Fulfilled [ex_message 42 1]) (Fulfilled True)) (room_mount (Some [114, 49]) (Some ex_user))
    in room s' = None \<and> messages s' = [] \<and> \<not> isMember s' \<and> channels s' = []"
    using snapshot_all_or_nothing [of "room_mount (Some [114, 49]) (Some ex_user)" "[]"
        "Fulfilled (Some ex_room)" "Rejected ''timeout''" "Fulfilled [ex_message 42 1]" "Fulfilled True"]
      room_mount_inv [of "Some [114, 49]" "Some ex_user"] m
    by (simp add: Let_def)
  from a b show ?thesis by (simp add: Let_def)
qed

text \<open>
  C6. The claim: three messages with timestamps t1 < t2 < t3 are listed in ascending
  timestamp order whatever their order of arrival. It fails: the snapshot holds the
  message of time 2 and the live channel then delivers the messages of times 3 and 1 in
  this order; the list then reads 2, 3, 1.
\<close>

theorem live_arrival_order_is_kept:
  "map created_at (messages (room_run
      [MessageInserted (ex_message 1 1), LookupSettled 0 (None, None)]
      (room_run [MessageInserted (ex_message 3 3), LookupSettled 0 (None, None)]
        (ex_loaded [ex_message 2 2])))) = [2, 3, 1] \<and>
   \<not> sorted (map created_at (messages (room_run
      [MessageInserted (ex_message 1 1), LookupSettled 0 (None, None)]
      (room_run [MessageInserted (ex_message 3 3), LookupSettled 0 (None, None)]
        (ex_loaded [ex_message 2 2])))))"
proof -
  define s0 where "s0 = ex_loaded [ex_message 2 2]"
  define s1 where "s1 = room_run [MessageInserted (ex_message 3 3), LookupSettled 0 (None, None)] s0"
  have b0: "bridge_inv s0"
    unfolding s0_def ex_loaded_def by (intro room_run_inv room_mount_inv)
  have c0: "messagesChannel (msg_room_id (ex_message 3 3)) \<in> set (channels s0)"
    by (simp add: s0_def ex_loaded_sel ex_message_def)
  have p0: "pendingLookups s0 = []"
    by (simp add: s0_def ex_loaded_sel)
  note d1 = deliver_one [OF b0 c0 p0, of "(None, None)", folded s1_def]
  from d1 have c1: "messagesChannel (msg_room_id (ex_message 1 1)) \<in> set (channels s1)"
    by (simp add: s0_def ex_loaded_sel ex_message_def)
  from d1 have b1: "bridge_inv s1" and p1: "pendingLookups s1 = []"
    by simp_all
  note d2 = deliver_one [OF b1 c1 p1, of "(None, None)"]
  from d1 d2 have "map created_at (messages (room_run
      [MessageInserted (ex_message 1 1), LookupSettled 0 (None, None)] s1)) = [2, 3, 1]"
    by (simp add: s0_def ex_loaded_sel ex_message_def)
  then show ?thesis
    unfolding s1_def s0_def by simp
qed

text \<open>
  C6, amended. A message that reaches the list through a live event is appended at the
  tail when its profile lookup completes. After the merge the list is in ascending
  timestamp order exactly when it was before and no message of the list is later than
  the merged one. The snapshot load stores the history in the order in which it was
  fetched.
\<close>

theorem live_insert_keeps_order_iff:
  "i < length (pendingLookups s) \<longrightarrow>
     (let p = pendingLookups s ! i; s' = room_step (LookupSettled i response) s
      in (sorted (map created_at (messages s')) \<longleftrightarrow>
            sorted (map created_at (messages s)) \<and>
            (\<forall>m\<in>set (messages s). created_at m \<le> created_at p)) \<and>
         map created_at (messages (loadRoomData_resume (Fulfilled (Some rd))
            (Fulfilled membersData) (Fulfilled messagesData) (Fulfilled membershipStatus) s)) =
           map created_at messagesData)"
  by (auto simp: Let_def room_step_lookup loadRoomData_resume_def sorted_append)

theorem live_insert_keeps_order_iff_witness:
  "sorted (map created_at (messages (room_step (LookupSettled 0 (None, None))
      (room_step (MessageInserted (ex_message 7 5)) (ex_loaded [ex_message 42 1])))))"
proof -
  define s where "s = room_step (MessageInserted (ex_message 7 5)) (ex_loaded [ex_message 42 1])"
  have p: "pendingLookups s = [ex_message 7 5]" and m: "messages s = [ex_message 42 1]"
    by (simp_all add: s_def room_step_def ex_loaded_sel messagesInsert_call_def ex_message_def)
  then have "0 < length (pendingLookups s)" by simp
  with live_insert_keeps_order_iff [of 0 s "(None, None)" ex_room "[]" "[]" True] p m
  show ?thesis unfolding s_def [symmetric]
    by (simp add: Let_def ex_message_def)
qed

text \<open>
  C8. A message-insert event that reaches the page through its open channel, and whose
  profile lookup comes back without data (the lookup failed, or found no row), is
  appended to the list with no profile.
\<close>

theorem message_kept_when_lookup_fails:
  "messagesChannel (msg_room_id p) \<in> set (channels s) \<longrightarrow>
     messages (room_run [MessageInserted p, LookupSettled (length (pendingLookups s)) (None, err)] s) =
       messages s @ [p\<lparr> msg_profile := None \<rparr>]"
  by (simp add: room_run_Cons room_step_def messagesInsert_call_def remove_nth_def)

theorem message_kept_when_lookup_fails_witness:
  "messages (room_run [MessageInserted (ex_message 7 5),
      LookupSettled (length (pendingLookups (ex_loaded [ex_message 42 1])))
        (None, Some ''JSON object requested, multiple (or no) rows returned'')]
      (ex_loaded [ex_message 42 1])) =
     [ex_message 42 1, (ex_message 7 5)\<lparr> msg_profile := None \<rparr>]"
  using message_kept_when_lookup_fails [of "ex_message 7 5" "ex_loaded [ex_message 42 1]"
      "Some ''JSON object requested, multiple (or no) rows returned''"]
  by (simp add: ex_loaded_sel ex_message_def)





text \<open>
  C10. The claim: \<open>sendMessage\<close> is never invoked with blank content, and at most one
  send is in flight at a time. The second part fails: while a text send is pending, an
  image upload that completes issues a second \<open>sendMessage\<close>, since \<open>handleFileUpload\<close>
  does not look at \<open>sendingMessage\<close>; two sends are then in flight.
\<close>

theorem image_send_overlaps_text_send:
  "sendingMessage (room_run [TypeText [104, 105], SendPressed, FileChosen True,
      UploadSettled 0 (Fulfilled (Some [117]))] (ex_loaded [])) \<and>
   sendsInFlight (room_run [TypeText [104, 105], SendPressed, FileChosen True,
      UploadSettled 0 (Fulfilled (Some [117]))] (ex_loaded [])) =
     [(TextSend, [114, 49], [104, 105]), (ImageSend, [114, 49], imageContent [117])]"
  by (simp add: room_run_Cons room_step_def ex_loaded_sel handleSendMessage_call_def
      handleFileUpload_call_def handleFileUpload_afterUpload_def trim_empty_iff blank_def
      isWhiteSpace_def remove_nth_def)

text \<open>
  C10, amended. Over every run of events from the first render: no \<open>sendMessage\<close> was
  invoked with blank content, by either handler; the number of sends in flight that
  \<open>handleSendMessage\<close> issued is one while \<open>sendingMessage\<close> is true and zero
  otherwise; and while \<open>sendingMessage\<close> is true a further attempt through
  \<open>handleSendMessage\<close> leaves the whole state unchanged. The send of an image upload is
  not gated by \<open>sendingMessage\<close>.
\<close>

theorem text_send_guard:
  "let s = room_run evs (room_mount rid u)
   in list_all (\<lambda>x. \<not> blank (snd (snd x))) (sendLog s) \<and>
      textSends s = (if sendingMessage s then 1 else 0) \<and>
      (sendingMessage s \<longrightarrow> room_step SendPressed s = s)"
proof -
  define s where "s = room_run evs (room_mount rid u)"
  have b: "bridge_inv s"
    unfolding s_def by (intro room_run_inv room_mount_inv)
  have i: "send_inv s"
    unfolding s_def by (intro send_inv_run send_inv_mount)
  have "sendingMessage s \<longrightarrow> room_handle SendPressed s = s"
    by (simp add: handleSendMessage_call_def split: option.splits)
  with b have "sendingMessage s \<longrightarrow> room_step SendPressed s = s"
    by (simp add: room_step_def flushRealtime_idle)
  with i show ?thesis
    unfolding s_def [symmetric] Let_def by (simp add: send_inv_def)
qed

theorem text_send_guard_witness:
  "sendingMessage (room_run [TypeText [104, 105], SendPressed] (ex_loaded [])) \<and>
   sendLog (room_run [TypeText [104, 105], SendPressed] (ex_loaded [])) =
     [(TextSend, [114, 49], [104, 105])] \<and>
   textSends (room_run [TypeText [104, 105], SendPressed] (ex_loaded [])) = 1 \<and>
   room_step SendPressed (room_run [TypeText [104, 105], SendPressed] (ex_loaded [])) =
     room_run [TypeText [104, 105], SendPressed] (ex_loaded [])"
proof -
  define t where "t = room_run [TypeText [104, 105], SendPressed] (ex_loaded [])"
  have t: "t = room_run
      ([LoadSettled (Fulfilled (Some ex_room)) (Fulfilled []) (Fulfilled []) (Fulfilled True)] @
       [TypeText [104, 105], SendPressed]) (room_mount (Some [114, 49]) (Some ex_user))"
    unfolding t_def ex_loaded_def room_run_append ..
  have v: "sendingMessage t \<and> sendLog t = [(TextSend, [114, 49], [104, 105])]"
    by (simp add: t_def room_run_Cons room_step_def ex_loaded_sel handleSendMessage_call_def
        trim_empty_iff blank_def isWhiteSpace_def)
  from text_send_guard
    [of "[LoadSettled (Fulfilled (Some ex_room)) (Fulfilled []) (Fulfilled []) (Fulfilled True)] @
       [TypeText [104, 105], SendPressed]" "Some [114, 49]" "Some ex_user"] v
  show ?thesis
    unfolding t [symmetric] t_def [symmetric] Let_def by simp
qed

end
